theory Spec2Isabelle
  imports Main "HOL-Library.Word"
begin

section \<open>AsyncBuzzer: data model (AsyncBuzzer.h)\<close>

text \<open>
  The library keeps four file-static objects (\<open>config\<close>, \<open>pulseState\<close>,
  \<open>patternState\<close>, \<open>melodyState\<close>) and talks to two collaborators: the Arduino
  clock \<open>millis()\<close> and the pin driver (\<open>tone\<close>, \<open>noTone\<close>). The embedding passes the
  four objects around as one record, appends every pin driver call to a log kept in the
  same record, and takes the clock readings of a call as arguments.

  Integer widths are those of the header: \<open>uint8_t\<close>, \<open>uint16_t\<close>, \<open>uint32_t\<close>.
\<close>

type_synonym u8 = "8 word"
type_synonym u16 = "16 word"
type_synonym u32 = "32 word"

text \<open>
  A C++ pointer to a caller-owned array: \<open>nullptr\<close>, or the array seen as the function
  from an index to the element stored there. The code is never told the length of the
  array (only a separate \<open>count\<close>), so the model holds none either: a theorem about
  \<open>Ptr a\<close> holds whatever \<open>a\<close> returns at each index.
\<close>

datatype 'a ptr = Null | Ptr "nat \<Rightarrow> 'a"

text \<open>\<open>struct Tone\<close>\<close>

record Tone =
  t_frequency :: u16
  t_duration :: u16
  t_rest :: u16

text \<open>\<open>struct Config\<close>; pin 255 means that no pin is configured.\<close>

record Config =
  c_pin :: u8
  c_ack :: Tone
  c_err :: Tone

text \<open>\<open>struct Pulse\<close>\<close>

record Pulse =
  p_pulses :: u8
  p_frequency :: u16
  p_duration :: u16
  p_interval :: u16
  p_last :: u32
  p_active :: bool

text \<open>\<open>struct Pattern\<close>\<close>

record Pattern =
  pt_pulses :: "Pulse ptr"
  pt_count :: u8
  pt_current :: u8
  pt_active :: bool
  pt_repeat :: bool
  pt_pulseDelay :: u16
  pt_lastPulseEnd :: u32
  pt_waitingForDelay :: bool

text \<open>\<open>struct Melody\<close>\<close>

record Melody =
  m_tones :: "Tone ptr"
  m_count :: u8
  m_current :: u8
  m_active :: bool
  m_repeat :: bool
  m_toneStart :: u32
  m_playingTone :: bool

text \<open>The calls made on the pin driver: \<open>tone(pin, frequency, duration)\<close> and \<open>noTone(pin)\<close>.\<close>

datatype pin_call = CallTone u8 u16 u16 | CallNoTone u8

fun is_tone :: "pin_call \<Rightarrow> bool" where
  "is_tone (CallTone p f d) = True"
| "is_tone (CallNoTone p) = False"

text \<open>The static objects of AsyncBuzzer.cpp, and the pin driver calls made so far.\<close>

record buzzer =
  config :: Config
  pulseState :: Pulse
  patternState :: Pattern
  melodyState :: Melody
  driver :: "pin_call list"

text \<open>The constructors of the header, with their default arguments.\<close>

definition Tone_default :: Tone where
  "Tone_default = \<lparr>t_frequency = 0, t_duration = 0, t_rest = 50\<rparr>"

definition Config_default :: Config where
  "Config_default =
     \<lparr>c_pin = 255,
      c_ack = \<lparr>t_frequency = 800, t_duration = 30, t_rest = 50\<rparr>,
      c_err = \<lparr>t_frequency = 1000, t_duration = 300, t_rest = 50\<rparr>\<rparr>"

definition mk_Pulse :: "u8 \<Rightarrow> u16 \<Rightarrow> u16 \<Rightarrow> u16 \<Rightarrow> u32 \<Rightarrow> bool \<Rightarrow> Pulse" where
  "mk_Pulse p f d i t a =
     \<lparr>p_pulses = p, p_frequency = f, p_duration = d, p_interval = i, p_last = t, p_active = a\<rparr>"

definition Pulse_default :: Pulse where
  "Pulse_default = mk_Pulse 0 0 0 0 0 False"

definition mk_Pattern :: "Pulse ptr \<Rightarrow> u8 \<Rightarrow> u8 \<Rightarrow> bool \<Rightarrow> bool \<Rightarrow> u16 \<Rightarrow> Pattern" where
  "mk_Pattern p c cur a r pd =
     \<lparr>pt_pulses = p, pt_count = c, pt_current = cur, pt_active = a, pt_repeat = r,
      pt_pulseDelay = pd, pt_lastPulseEnd = 0, pt_waitingForDelay = False\<rparr>"

definition Pattern_default :: Pattern where
  "Pattern_default = mk_Pattern Null 0 0 False False 300"

definition mk_Melody :: "Tone ptr \<Rightarrow> u8 \<Rightarrow> u8 \<Rightarrow> bool \<Rightarrow> bool \<Rightarrow> Melody" where
  "mk_Melody t c cur a r =
     \<lparr>m_tones = t, m_count = c, m_current = cur, m_active = a, m_repeat = r,
      m_toneStart = 0, m_playingTone = False\<rparr>"

definition Melody_default :: Melody where
  "Melody_default = mk_Melody Null 0 0 False False"

text \<open>The state at program start: the four static objects default-constructed.\<close>

definition initial :: buzzer where
  "initial =
     \<lparr>config = Config_default, pulseState = Pulse_default, patternState = Pattern_default,
      melodyState = Melody_default, driver = []\<rparr>"

text \<open>
  The state after \<open>setup(pin)\<close> at program start with no flags: \<open>config = Config(pin)\<close>,
  the rest untouched.
\<close>

definition configured :: "u8 \<Rightarrow> buzzer" where
  "configured p = initial\<lparr>config := Config_default\<lparr>c_pin := p\<rparr>\<rparr>"

section \<open>Elapsed-time decisions\<close>

text \<open>
  The sum of two \<open>uint16_t\<close> operands (\<open>interval + duration\<close>, \<open>duration + rest\<close>).
  Both operands undergo integer promotion; the model is that of a target whose \<open>int\<close>
  has 32 bits (the ARM and ESP Arduino cores), where the sum is at most 131070 and
  cannot wrap. The sum is then compared with a \<open>uint32_t\<close>.
\<close>

definition sum16 :: "u16 \<Rightarrow> u16 \<Rightarrow> u32" where
  "sum16 a b = ucast a + ucast b"

text \<open>Line 90: \<open>pulseState.last == 0 || (now - pulseState.last) >= interval + duration\<close>.\<close>

definition pulse_due :: "u32 \<Rightarrow> Pulse \<Rightarrow> bool" where
  "pulse_due now p \<longleftrightarrow>
     p_last p = 0 \<or> now - p_last p \<ge> sum16 (p_interval p) (p_duration p)"

text \<open>
  Lines 112-115: \<open>now >= lastPulseEnd\<close> and then
  \<open>elapsed = now - lastPulseEnd; elapsed >= pulseDelay\<close>.
\<close>

definition delay_over :: "u32 \<Rightarrow> Pattern \<Rightarrow> bool" where
  "delay_over now pt \<longleftrightarrow>
     now \<ge> pt_lastPulseEnd pt \<and> now - pt_lastPulseEnd pt \<ge> ucast (pt_pulseDelay pt)"

text \<open>Line 140: \<open>now - melodyState.toneStart >= currentTone.duration\<close>.\<close>

definition tone_over :: "u32 \<Rightarrow> u32 \<Rightarrow> Tone \<Rightarrow> bool" where
  "tone_over now start t \<longleftrightarrow> now - start \<ge> ucast (t_duration t)"

text \<open>Line 148: \<open>now - melodyState.toneStart >= currentTone.duration + currentTone.rest\<close>.\<close>

definition step_over :: "u32 \<Rightarrow> u32 \<Rightarrow> Tone \<Rightarrow> bool" where
  "step_over now start t \<longleftrightarrow> now - start \<ge> sum16 (t_duration t) (t_rest t)"

section \<open>The tick function\<close>

text \<open>
  \<open>advancePattern()\<close>. The increment of \<open>current\<close> is stored before the end of the list
  is detected, so a pattern that ends keeps \<open>current = count\<close>.
\<close>

definition advancePattern :: "buzzer \<Rightarrow> bool \<times> buzzer" where
  "advancePattern s =
     (let pt = patternState s in
      case pt_pulses pt of
        Null \<Rightarrow> (False, s\<lparr>patternState := pt\<lparr>pt_active := False\<rparr>\<rparr>)
      | Ptr a \<Rightarrow>
          if \<not> pt_active pt \<or> pt_count pt = 0
          then (False, s\<lparr>patternState := pt\<lparr>pt_active := False\<rparr>\<rparr>)
          else
            let cur = pt_current pt + 1 in
            if cur \<ge> pt_count pt \<and> \<not> pt_repeat pt
            then (False, s\<lparr>patternState := pt\<lparr>pt_current := cur, pt_active := False\<rparr>\<rparr>)
            else
              let cur' = (if cur \<ge> pt_count pt then 0 else cur);
                  nextPulse = a (unat cur')
              in (True,
                  s\<lparr>patternState := pt\<lparr>pt_current := cur'\<rparr>,
                    pulseState := mk_Pulse (p_pulses nextPulse) (p_frequency nextPulse)
                                    (p_duration nextPulse) (p_interval nextPulse) 0 True\<rparr>))"

text \<open>
  Lines 87-106, the branch of \<open>update()\<close> taken when the pulse train is active and a pin
  is configured. \<open>now\<close> is the clock read at line 87 and \<open>now2\<close> the one read again at
  line 102. The result is \<open>pulseState.last == now\<close>.
\<close>

definition pulse_tick :: "u32 \<Rightarrow> u32 \<Rightarrow> buzzer \<Rightarrow> bool \<times> buzzer" where
  "pulse_tick now now2 s =
     (let p = pulseState s;
          s' =
            (if p_pulses p > 0
             then
               (if pulse_due now p
                then s\<lparr>driver := driver s @ [CallTone (c_pin (config s)) (p_frequency p) (p_duration p)],
                       pulseState := p\<lparr>p_last := now, p_pulses := p_pulses p - 1\<rparr>\<rparr>
                else s)
             else
               (let s1 = s\<lparr>pulseState := p\<lparr>p_active := False\<rparr>\<rparr> in
                if pt_active (patternState s1)
                then s1\<lparr>patternState := (patternState s1)
                          \<lparr>pt_lastPulseEnd := now2 + ucast (p_duration p),
                           pt_waitingForDelay := True\<rparr>\<rparr>
                else s1))
      in (p_last (pulseState s') = now, s'))"

text \<open>
  Lines 109-123, the pattern bookkeeping. It reads the clock (\<open>now\<close>) only in the
  waiting branch; the second component of the result tells whether it did.
\<close>

definition pattern_tick :: "u32 \<Rightarrow> buzzer \<Rightarrow> buzzer \<times> bool" where
  "pattern_tick now s =
     (let pt = patternState s in
      if pt_active pt \<and> pt_waitingForDelay pt
      then
        (if delay_over now pt
         then (snd (advancePattern (s\<lparr>patternState := pt\<lparr>pt_waitingForDelay := False\<rparr>\<rparr>)), True)
         else (s, True))
      else if pt_active pt \<and> \<not> p_active (pulseState s) \<and> \<not> pt_waitingForDelay pt
      then (snd (advancePattern s), False)
      else (s, False))"

text \<open>
  Lines 127-165, the body of the melody branch. \<open>melodyState.tones[current]\<close> is read
  with no check of the pointer: through a null pointer the behaviour is undefined, and
  the model returns \<open>None\<close>.
\<close>

definition melody_tick :: "u32 \<Rightarrow> buzzer \<Rightarrow> buzzer option" where
  "melody_tick now s =
     (let m = melodyState s in
      if m_current m < m_count m
      then
        (case m_tones m of
           Null \<Rightarrow> None
         | Ptr a \<Rightarrow>
             let currentTone = a (unat (m_current m)) in
             if m_toneStart m = 0
             then
               (let s1 = s\<lparr>melodyState := m\<lparr>m_toneStart := now, m_playingTone := True\<rparr>\<rparr> in
                if t_frequency currentTone > 0
                then Some (s1\<lparr>driver := driver s1 @
                            [CallTone (c_pin (config s)) (t_frequency currentTone) (t_duration currentTone)]\<rparr>)
                else Some s1)
             else if m_playingTone m
             then
               (if tone_over now (m_toneStart m) currentTone
                then Some (s\<lparr>melodyState := m\<lparr>m_playingTone := False\<rparr>,
                             driver := driver s @ [CallNoTone (c_pin (config s))]\<rparr>)
                else Some s)
             else
               (if step_over now (m_toneStart m) currentTone
                then Some (s\<lparr>melodyState := m\<lparr>m_current := m_current m + 1, m_toneStart := 0\<rparr>\<rparr>)
                else Some s))
      else
        (if m_repeat m
         then Some (s\<lparr>melodyState := m\<lparr>m_current := 0, m_toneStart := 0, m_playingTone := False\<rparr>\<rparr>)
         else Some (s\<lparr>melodyState := m\<lparr>m_active := False\<rparr>\<rparr>)))"

text \<open>Line 125, the condition under which the melody branch runs.\<close>

definition melody_guard :: "buzzer \<Rightarrow> bool" where
  "melody_guard s \<longleftrightarrow>
     m_active (melodyState s) \<and> c_pin (config s) \<noteq> 255 \<and>
     \<not> p_active (pulseState s) \<and> \<not> pt_active (patternState s)"

text \<open>
  \<open>update()\<close>. \<open>t1\<close> and \<open>t2\<close> are the values of the first and of the second call of
  \<open>millis()\<close> that this invocation makes (no path makes more than two). The result is
  \<open>None\<close> when the invocation reads through a null pointer, and otherwise the value
  returned and the new state.
\<close>

definition update :: "u32 \<Rightarrow> u32 \<Rightarrow> buzzer \<Rightarrow> (bool \<times> buzzer) option" where
  "update t1 t2 s =
     (if p_active (pulseState s) \<and> c_pin (config s) \<noteq> 255
      then Some (pulse_tick t1 t2 s)
      else
        (case pattern_tick t1 s of (s1, clock_read) \<Rightarrow>
           if melody_guard s1
           then map_option (Pair False) (melody_tick (if clock_read then t2 else t1) s1)
           else Some (False, s1)))"

section \<open>Requests\<close>

text \<open>\<open>pulse(count, frequency, duration, interval)\<close>\<close>

definition pulse :: "u8 \<Rightarrow> u16 \<Rightarrow> u16 \<Rightarrow> u16 \<Rightarrow> buzzer \<Rightarrow> buzzer" where
  "pulse count frequency duration interval s =
     (if c_pin (config s) = 255 \<or> count = 0 then s
      else s\<lparr>pulseState := mk_Pulse count frequency duration interval 0 True\<rparr>)"

text \<open>\<open>pattern(pulses, count, repeat, pulseDelay)\<close>\<close>

definition pattern :: "Pulse ptr \<Rightarrow> u8 \<Rightarrow> bool \<Rightarrow> u16 \<Rightarrow> buzzer \<Rightarrow> buzzer" where
  "pattern pulses count repeat pulseDelay s =
     (case pulses of
        Null \<Rightarrow> s
      | Ptr a \<Rightarrow>
          if c_pin (config s) = 255 \<or> count = 0 then s
          else
            let firstPulse = a 0 in
            s\<lparr>patternState := mk_Pattern pulses count 0 True repeat pulseDelay,
              pulseState := mk_Pulse (p_pulses firstPulse) (p_frequency firstPulse)
                              (p_duration firstPulse) (p_interval firstPulse) 0 True\<rparr>)"

definition isPatternActive :: "buzzer \<Rightarrow> bool" where
  "isPatternActive s = pt_active (patternState s)"

text \<open>\<open>stopPattern()\<close>: two assignments, and no call on the pin driver.\<close>

definition stopPattern :: "buzzer \<Rightarrow> buzzer" where
  "stopPattern s =
     s\<lparr>patternState := (patternState s)\<lparr>pt_active := False\<rparr>,
       pulseState := (pulseState s)\<lparr>p_active := False\<rparr>\<rparr>"

text \<open>\<open>stopMelody()\<close>\<close>

definition stopMelody :: "buzzer \<Rightarrow> buzzer" where
  "stopMelody s =
     (let s1 = s\<lparr>melodyState := (melodyState s)\<lparr>m_active := False\<rparr>\<rparr> in
      if c_pin (config s1) \<noteq> 255
      then s1\<lparr>driver := driver s1 @ [CallNoTone (c_pin (config s1))]\<rparr>
      else s1)"

text \<open>\<open>melody(tones, count, repeat)\<close>\<close>

definition melody :: "Tone ptr \<Rightarrow> u8 \<Rightarrow> bool \<Rightarrow> buzzer \<Rightarrow> buzzer" where
  "melody tones count repeat s =
     (case tones of
        Null \<Rightarrow> s
      | Ptr a \<Rightarrow>
          if c_pin (config s) = 255 \<or> count = 0 then s
          else
            let s1 = stopMelody s in
            s1\<lparr>melodyState := (melodyState s1)
                  \<lparr>m_tones := tones, m_count := count, m_current := 0, m_active := True,
                   m_repeat := repeat, m_toneStart := 0, m_playingTone := False\<rparr>\<rparr>)"

definition isMelodyActive :: "buzzer \<Rightarrow> bool" where
  "isMelodyActive s = m_active (melodyState s)"

text \<open>
  The only assignment of \<open>true\<close> to \<open>melodyState.active\<close> is in \<open>melody()\<close>, after the
  check that the list is not null. So in every state the program can reach, an active
  melody has a list.
\<close>

definition melody_ok :: "buzzer \<Rightarrow> bool" where
  "melody_ok s \<longleftrightarrow>
     (case m_tones (melodyState s) of Null \<Rightarrow> \<not> m_active (melodyState s) | Ptr a \<Rightarrow> True)"

section \<open>Blocking wrappers\<close>

text \<open>
  The wrappers loop on \<open>update()\<close>, and whether a loop ends depends on the clock. A
  clock is given as the function from the number of an iteration to the pair of
  readings that \<open>update()\<close> sees in that iteration. A loop that never ends, or that
  reads through a null pointer, has the value \<open>None\<close>.
\<close>

type_synonym clock = "nat \<Rightarrow> u32 \<times> u32"

text \<open>\<open>while (pulseState.pulses) update();\<close>\<close>

partial_function (option) pulseBlocking_loop :: "clock \<Rightarrow> nat \<Rightarrow> buzzer \<Rightarrow> buzzer option" where
  "pulseBlocking_loop clk i s =
     (if p_pulses (pulseState s) \<noteq> 0
      then Option.bind (update (fst (clk i)) (snd (clk i)) s)
             (\<lambda>r. pulseBlocking_loop clk (Suc i) (snd r))
      else Some s)"

definition pulseBlocking :: "clock \<Rightarrow> u8 \<Rightarrow> u16 \<Rightarrow> u16 \<Rightarrow> u16 \<Rightarrow> buzzer \<Rightarrow> buzzer option" where
  "pulseBlocking clk count frequency duration interval s =
     pulseBlocking_loop clk 0 (pulse count frequency duration interval s)"

text \<open>\<open>while (patternState.active || pulseState.active) update();\<close>\<close>

partial_function (option) patternBlocking_loop :: "clock \<Rightarrow> nat \<Rightarrow> buzzer \<Rightarrow> buzzer option" where
  "patternBlocking_loop clk i s =
     (if pt_active (patternState s) \<or> p_active (pulseState s)
      then Option.bind (update (fst (clk i)) (snd (clk i)) s)
             (\<lambda>r. patternBlocking_loop clk (Suc i) (snd r))
      else Some s)"

definition patternBlocking :: "clock \<Rightarrow> Pulse ptr \<Rightarrow> u8 \<Rightarrow> bool \<Rightarrow> u16 \<Rightarrow> buzzer \<Rightarrow> buzzer option" where
  "patternBlocking clk pulses count repeat pulseDelay s =
     patternBlocking_loop clk 0 (pattern pulses count repeat pulseDelay s)"

text \<open>\<open>while (melodyState.active) { update(); delay(1); }\<close>; the delay only moves the clock.\<close>

partial_function (option) melodyBlocking_loop :: "clock \<Rightarrow> nat \<Rightarrow> buzzer \<Rightarrow> buzzer option" where
  "melodyBlocking_loop clk i s =
     (if m_active (melodyState s)
      then Option.bind (update (fst (clk i)) (snd (clk i)) s)
             (\<lambda>r. melodyBlocking_loop clk (Suc i) (snd r))
      else Some s)"

text \<open>
  The state in which \<open>melodyBlocking\<close> enters its loop: after \<open>melody(tones, count, repeat)\<close>
  and the assignment \<open>melodyState.repeat = false\<close>.
\<close>

definition melodyBlocking_start :: "Tone ptr \<Rightarrow> u8 \<Rightarrow> bool \<Rightarrow> buzzer \<Rightarrow> buzzer" where
  "melodyBlocking_start tones count repeat s =
     (let s1 = melody tones count repeat s in
      s1\<lparr>melodyState := (melodyState s1)\<lparr>m_repeat := False\<rparr>\<rparr>)"

definition melodyBlocking :: "clock \<Rightarrow> Tone ptr \<Rightarrow> u8 \<Rightarrow> bool \<Rightarrow> buzzer \<Rightarrow> buzzer option" where
  "melodyBlocking clk tones count repeat s =
     melodyBlocking_loop clk 0 (melodyBlocking_start tones count repeat s)"

declare pulseBlocking_loop.simps [code]
declare patternBlocking_loop.simps [code]
declare melodyBlocking_loop.simps [code]

section \<open>Sequences of calls\<close>

text \<open>
  \<open>run ts s\<close>: successive calls of \<open>update()\<close>, the k-th of which sees the clock readings
  \<open>ts ! k\<close>. \<open>at t\<close> is a call during which the clock stands at \<open>t\<close>.
\<close>

fun run :: "(u32 \<times> u32) list \<Rightarrow> buzzer \<Rightarrow> buzzer option" where
  "run [] s = Some s"
| "run (t # ts) s = Option.bind (update (fst t) (snd t) s) (\<lambda>r. run ts (snd r))"

definition at :: "u32 \<Rightarrow> u32 \<times> u32" where
  "at t = (t, t)"

text \<open>The number of \<open>tone\<close> calls made on the pin driver so far.\<close>

definition tones_fired :: "buzzer \<Rightarrow> nat" where
  "tones_fired s = length (filter is_tone (driver s))"

text \<open>A caller's array with the given elements (and \<open>d\<close> beyond them).\<close>

definition array_of :: "'a \<Rightarrow> 'a list \<Rightarrow> 'a ptr" where
  "array_of d xs = Ptr (\<lambda>i. if i < length xs then xs ! i else d)"

text \<open>
  What it means for a loop \<open>while (g) update();\<close> entered in state \<open>s\<close> at iteration \<open>i\<close> to
  end in state \<open>y\<close>: \<open>y\<close> is the state after some number \<open>n\<close> of successive calls of
  \<open>update()\<close>, the loop condition is false in \<open>y\<close>, and it was true before each of the
  \<open>n\<close> calls.
\<close>

definition loop_result :: "(buzzer \<Rightarrow> bool) \<Rightarrow> clock \<Rightarrow> nat \<Rightarrow> buzzer \<Rightarrow> buzzer \<Rightarrow> bool" where
  "loop_result g clk i s y \<longleftrightarrow>
     (\<exists>n. run (map clk [i..<i + n]) s = Some y \<and> \<not> g y \<and>
          (\<forall>k<n. \<exists>sk. run (map clk [i..<i + k]) s = Some sk \<and> g sk))"

section \<open>Concrete inputs\<close>

text \<open>A clock that stands at \<open>n * i + 1\<close> ms during the i-th call of \<open>update()\<close>.\<close>

definition clock_every :: "nat \<Rightarrow> clock" where
  "clock_every n i = at (of_nat (n * i + 1))"

text \<open>A pattern of two entries: one acknowledge beep, two error beeps.\<close>

definition beeps :: "Pulse ptr" where
  "beeps = array_of Pulse_default [mk_Pulse 1 800 30 50 0 False, mk_Pulse 2 1000 300 50 0 False]"

text \<open>The melody of the specification's scenario: a tone, a silent step, a tone.\<close>

definition tune :: "Tone ptr" where
  "tune = array_of Tone_default
     [\<lparr>t_frequency = 440, t_duration = 100, t_rest = 50\<rparr>,
      \<lparr>t_frequency = 0, t_duration = 0, t_rest = 50\<rparr>,
      \<lparr>t_frequency = 880, t_duration = 100, t_rest = 0\<rparr>]"



text \<open>
  The melody of three steps on pin 8, resting in its first step, which began at 10 ms.
\<close>

definition melody_resting :: buzzer where
  "melody_resting =
     (let s = melody tune 3 False (configured 8) in
      s\<lparr>melodyState := (melodyState s)\<lparr>m_toneStart := 10, m_playingTone := False\<rparr>\<rparr>)"


text \<open>
  The melody of three steps on pin 8 in its second step, the silent one (frequency 0,
  duration 0, rest 50), which began at \<open>t\<close>; \<open>pl\<close> is the "sounding" flag.
\<close>

definition melody_silent_step :: "u32 \<Rightarrow> bool \<Rightarrow> buzzer" where
  "melody_silent_step t pl =
     (let s = melody tune 3 False (configured 8) in
      s\<lparr>melodyState := (melodyState s)\<lparr>m_current := 1, m_toneStart := t, m_playingTone := pl\<rparr>\<rparr>)"

text \<open>A melody whose first step is silent for 100 ms and then rests for 50 ms.\<close>

definition pause_tune :: "Tone ptr" where
  "pause_tune = array_of Tone_default
     [\<lparr>t_frequency = 0, t_duration = 100, t_rest = 50\<rparr>,
      \<lparr>t_frequency = 880, t_duration = 100, t_rest = 0\<rparr>]"

section \<open>The pulse train of the specification\<close>

text \<open>
  A second model of the pulse train, written from the words of the specification (4.2 and
  the scenario of section 8) and not from the code: the clock is a natural number of
  milliseconds that never wraps, and "not yet fired" is \<open>None\<close> instead of the timestamp
  0. A tick fires when pulses remain and either none has fired yet or at least \<open>gap\<close>
  (interval + duration) ms have passed since the last firing; a tick that finds no
  pulse remaining marks the train inactive.
\<close>

record train =
  remaining :: nat
  last_fire :: "nat option"
  running :: bool

definition train_due :: "nat \<Rightarrow> nat \<Rightarrow> train \<Rightarrow> bool" where
  "train_due gap t tr \<longleftrightarrow> (case last_fire tr of None \<Rightarrow> True | Some l \<Rightarrow> l + gap \<le> t)"

definition train_tick :: "nat \<Rightarrow> nat \<Rightarrow> train \<Rightarrow> bool \<times> train" where
  "train_tick gap t tr =
     (if \<not> running tr then (False, tr)
      else if 0 < remaining tr
      then (if train_due gap t tr
            then (True, tr\<lparr>remaining := remaining tr - 1, last_fire := Some t\<rparr>)
            else (False, tr))
      else (False, tr\<lparr>running := False\<rparr>))"

text \<open>For ticks at the times \<open>ts\<close>: which of them fire a tone, and the train afterwards.\<close>

fun train_fires :: "nat \<Rightarrow> nat list \<Rightarrow> train \<Rightarrow> bool list" where
  "train_fires gap [] tr = []"
| "train_fires gap (t # ts) tr =
     fst (train_tick gap t tr) # train_fires gap ts (snd (train_tick gap t tr))"

fun train_run :: "nat \<Rightarrow> nat list \<Rightarrow> train \<Rightarrow> train" where
  "train_run gap [] tr = tr"
| "train_run gap (t # ts) tr = train_run gap ts (snd (train_tick gap t tr))"

text \<open>The train that \<open>startPulse(3, 1000, 50, 20)\<close> sets up.\<close>

definition train3 :: train where
  "train3 = \<lparr>remaining = 3, last_fire = None, running = True\<rparr>"

text \<open>
  The same observation on the code: which calls of a sequence of \<open>update()\<close> calls make
  a \<open>tone\<close> call on the pin driver. \<open>at_ms t\<close> is a call during which the clock stands
  at \<open>t\<close> ms.
\<close>

fun fires :: "(u32 \<times> u32) list \<Rightarrow> buzzer \<Rightarrow> bool list" where
  "fires [] s = []"
| "fires (t # ts) s =
     (case update (fst t) (snd t) s of
        None \<Rightarrow> []
      | Some r \<Rightarrow> (tones_fired s < tones_fired (snd r)) # fires ts (snd r))"

definition at_ms :: "nat \<Rightarrow> u32 \<times> u32" where
  "at_ms t = at (of_nat t)"

text \<open>
  How a state of the code represents a train: the pulse train alone is in charge (pin
  configured, pattern and melody inactive), and the stored timestamp is the time of the
  last firing, or 0 when there was none.
\<close>

definition train_rel :: "nat \<Rightarrow> train \<Rightarrow> buzzer \<Rightarrow> bool" where
  "train_rel gap tr s \<longleftrightarrow>
     c_pin (config s) \<noteq> 255 \<and> \<not> pt_active (patternState s) \<and> \<not> m_active (melodyState s) \<and>
     p_active (pulseState s) = running tr \<and>
     unat (p_pulses (pulseState s)) = remaining tr \<and>
     unat (p_interval (pulseState s)) + unat (p_duration (pulseState s)) = gap \<and>
     (case last_fire tr of
        None \<Rightarrow> p_last (pulseState s) = 0
      | Some l \<Rightarrow> p_last (pulseState s) = of_nat l \<and> 0 < l \<and> l < 2 ^ 32)"

section \<open>Reading the thresholds as numbers\<close>

lemma unat_ucast16: "unat (ucast (a :: u16) :: u32) = unat a"
proof -
  have "unat a < 2 ^ 16" using unsigned_less [of a] by simp
  then have "unat a < 2 ^ 32" by simp
  then show ?thesis by (simp add: unsigned_ucast_eq take_bit_nat_eq_self)
qed

lemma unat_sum16: "unat (sum16 a b) = unat a + unat b"
proof -
  have a: "unat a < 2 ^ 16" using unsigned_less [of a] by simp
  have b: "unat b < 2 ^ 16" using unsigned_less [of b] by simp
  have "unat (ucast a + ucast b :: u32) = (unat (ucast a :: u32) + unat (ucast b :: u32)) mod 2 ^ 32"
    by (simp add: unat_word_ariths)
  also have "\<dots> = (unat a + unat b) mod 2 ^ 32"
    by (simp only: unat_ucast16)
  also have "\<dots> = unat a + unat b"
    using a b by simp
  finally show ?thesis by (simp add: sum16_def)
qed

lemma unat_of_nat32: "e < 2 ^ 32 \<Longrightarrow> unat (of_nat e :: u32) = e"
  by (simp add: unat_of_nat)

section \<open>What a call of \<open>update()\<close> leaves alone\<close>

lemma advancePattern_frame:
  "melodyState (snd (advancePattern s)) = melodyState s \<and>
   config (snd (advancePattern s)) = config s \<and>
   driver (snd (advancePattern s)) = driver s"
  by (simp add: advancePattern_def Let_def split: ptr.splits)

lemma pulse_tick_frame:
  "melodyState (snd (pulse_tick t1 t2 s)) = melodyState s \<and>
   config (snd (pulse_tick t1 t2 s)) = config s"
  by (simp add: pulse_tick_def Let_def)

lemma pattern_tick_frame:
  "melodyState (fst (pattern_tick t s)) = melodyState s \<and>
   config (fst (pattern_tick t s)) = config s \<and>
   driver (fst (pattern_tick t s)) = driver s"
  by (simp add: pattern_tick_def Let_def advancePattern_frame)

lemma melody_tick_frame:
  assumes "melody_tick t s = Some s'"
  shows "config s' = config s \<and> pulseState s' = pulseState s \<and> patternState s' = patternState s \<and>
         m_tones (melodyState s') = m_tones (melodyState s) \<and>
         m_count (melodyState s') = m_count (melodyState s) \<and>
         m_repeat (melodyState s') = m_repeat (melodyState s)"
  using assms
  by (auto simp: melody_tick_def Let_def split: if_splits ptr.splits)

lemma update_keeps_repeat:
  assumes "update t1 t2 s = Some (r, s')"
  shows "m_repeat (melodyState s') = m_repeat (melodyState s)"
proof (cases "p_active (pulseState s) \<and> c_pin (config s) \<noteq> 255")
  case True
  with assms have "s' = snd (pulse_tick t1 t2 s)"
    by (auto simp: update_def)
  then show ?thesis by (simp add: pulse_tick_frame)
next
  case False
  obtain s1 rd where pt: "pattern_tick t1 s = (s1, rd)"
    by (cases "pattern_tick t1 s")
  then have s1: "melodyState s1 = melodyState s"
    using pattern_tick_frame [of t1 s] by simp
  show ?thesis
  proof (cases "melody_guard s1")
    case True
    with False pt assms have "melody_tick (if rd then t2 else t1) s1 = Some s'"
      by (auto simp: update_def)
    then show ?thesis using s1 melody_tick_frame by metis
  next
    case g: False
    with False pt assms have "s' = s1" by (auto simp: update_def)
    then show ?thesis using s1 by simp
  qed
qed

section \<open>\<open>update()\<close> returns in every reachable state\<close>

lemma melody_ok_initial: "melody_ok initial \<and> melody_ok (configured p)"
  by (simp add: melody_ok_def initial_def configured_def Melody_default_def mk_Melody_def)

lemma melody_ok_requests:
  assumes "melody_ok s"
  shows "melody_ok (pulse c f d i s) \<and> melody_ok (pattern ps c r pd s) \<and>
         melody_ok (melody ts c r s) \<and> melody_ok (stopPattern s) \<and> melody_ok (stopMelody s) \<and>
         melody_ok (melodyBlocking_start ts c r s)"
  using assms
  by (auto simp: melody_ok_def pulse_def pattern_def melody_def stopPattern_def stopMelody_def
      melodyBlocking_start_def Let_def split: ptr.splits)

lemma melody_tick_returns:
  assumes "melody_ok s" "m_active (melodyState s)"
  shows "\<exists>s'. melody_tick t s = Some s' \<and> melody_ok s'"
  using assms
  by (auto simp: melody_ok_def melody_tick_def Let_def split: ptr.splits)

lemma update_returns:
  assumes ok: "melody_ok s"
  shows "\<exists>r s'. update t1 t2 s = Some (r, s') \<and> melody_ok s'"
proof (cases "p_active (pulseState s) \<and> c_pin (config s) \<noteq> 255")
  case True
  then have "update t1 t2 s = Some (pulse_tick t1 t2 s)"
    by (simp add: update_def)
  moreover have "melodyState (snd (pulse_tick t1 t2 s)) = melodyState s"
    by (simp add: pulse_tick_frame)
  with ok have "melody_ok (snd (pulse_tick t1 t2 s))"
    by (simp add: melody_ok_def split: ptr.splits)
  ultimately show ?thesis
    by (cases "pulse_tick t1 t2 s") auto
next
  case False
  obtain s1 rd where pt: "pattern_tick t1 s = (s1, rd)"
    by (cases "pattern_tick t1 s")
  then have "melodyState s1 = melodyState s"
    using pattern_tick_frame [of t1 s] by simp
  with ok have ok1: "melody_ok s1"
    by (simp add: melody_ok_def split: ptr.splits)
  show ?thesis
  proof (cases "melody_guard s1")
    case g: False
    with False pt have "update t1 t2 s = Some (False, s1)"
      by (auto simp: update_def)
    with ok1 show ?thesis by blast
  next
    case g: True
    then have "m_active (melodyState s1)" by (simp add: melody_guard_def)
    from melody_tick_returns [OF ok1 this]
    obtain s' where "melody_tick (if rd then t2 else t1) s1 = Some s'" "melody_ok s'"
      by blast
    with False pt g have "update t1 t2 s = Some (False, s') \<and> melody_ok s'"
      by (auto simp: update_def)
    then show ?thesis by blast
  qed
qed

lemma run_returns:
  assumes "melody_ok s"
  shows "\<exists>s'. run ts s = Some s' \<and> melody_ok s'"
  using assms
proof (induction ts arbitrary: s)
  case Nil
  then show ?case by simp
next
  case (Cons t ts)
  from update_returns [OF Cons.prems]
  obtain r s1 where u: "update (fst t) (snd t) s = Some (r, s1)" and ok1: "melody_ok s1"
    by blast
  from Cons.IH [OF ok1] u show ?case by simp
qed

section \<open>Blocking wrappers: the repeat flag\<close>

lemma melodyBlocking_loop_repeat:
  assumes "melodyBlocking_loop clk i s = Some s'"
  shows "m_repeat (melodyState s') = m_repeat (melodyState s)"
  using assms
proof (rule melodyBlocking_loop.raw_induct [rotated])
  fix loop :: "clock \<Rightarrow> nat \<Rightarrow> buzzer \<Rightarrow> buzzer option" and clk i s y
  assume IH: "\<And>clk i s y. loop clk i s = Some y \<Longrightarrow>
        m_repeat (melodyState y) = m_repeat (melodyState s)"
    and step: "(if m_active (melodyState s)
      then Option.bind (update (fst (clk i)) (snd (clk i)) s) (\<lambda>r. loop clk (Suc i) (snd r))
      else Some s) = Some y"
  show "m_repeat (melodyState y) = m_repeat (melodyState s)"
  proof (cases "m_active (melodyState s)")
    case False
    with step show ?thesis by auto
  next
    case True
    with step obtain r :: bool and s1 where u: "update (fst (clk i)) (snd (clk i)) s = Some (r, s1)"
      and l: "loop clk (Suc i) s1 = Some y"
      by (auto simp: bind_eq_Some_conv)
    from IH [OF l] update_keeps_repeat [OF u] show ?thesis by simp
  qed
qed

section \<open>A blocking loop is a sequence of calls of \<open>update()\<close>\<close>

lemma run_upt_Suc:
  "run (map clk [i..<i + Suc n]) s =
     Option.bind (update (fst (clk i)) (snd (clk i)) s) (\<lambda>r. run (map clk [Suc i..<Suc i + n]) (snd r))"
proof -
  have "[i..<i + Suc n] = i # [Suc i..<Suc i + n]"
    by (simp add: upt_conv_Cons)
  then show ?thesis by simp
qed

lemma loop_result_stop:
  assumes "\<not> g s"
  shows "loop_result g clk i s y \<longleftrightarrow> y = s"
proof
  assume "loop_result g clk i s y"
  then obtain n where r: "run (map clk [i..<i + n]) s = Some y"
    and all: "\<forall>k<n. \<exists>sk. run (map clk [i..<i + k]) s = Some sk \<and> g sk"
    by (auto simp: loop_result_def)
  have "n = 0"
  proof (rule ccontr)
    assume "n \<noteq> 0"
    then have "0 < n" by simp
    with all obtain sk where "run (map clk [i..<i + 0]) s = Some sk" "g sk" by blast
    with assms show False by simp
  qed
  with r show "y = s" by simp
next
  assume "y = s"
  with assms have "run (map clk [i..<i + 0]) s = Some y \<and> \<not> g y \<and>
      (\<forall>k<0. \<exists>sk. run (map clk [i..<i + k]) s = Some sk \<and> g sk)"
    by simp
  then show "loop_result g clk i s y"
    unfolding loop_result_def by blast
qed

lemma loop_result_step:
  assumes g: "g s"
  shows "loop_result g clk i s y \<longleftrightarrow>
         (\<exists>r. update (fst (clk i)) (snd (clk i)) s = Some r \<and> loop_result g clk (Suc i) (snd r) y)"
proof
  assume "loop_result g clk i s y"
  then obtain n where r: "run (map clk [i..<i + n]) s = Some y" and ny: "\<not> g y"
    and all: "\<forall>k<n. \<exists>sk. run (map clk [i..<i + k]) s = Some sk \<and> g sk"
    by (auto simp: loop_result_def)
  from r ny g have "n \<noteq> 0" by (auto intro: ccontr)
  then obtain m where n: "n = Suc m" by (cases n) auto
  from r obtain u where u: "update (fst (clk i)) (snd (clk i)) s = Some u"
    and r1: "run (map clk [Suc i..<Suc i + m]) (snd u) = Some y"
    unfolding n run_upt_Suc by (auto simp: bind_eq_Some_conv)
  have "\<forall>k<m. \<exists>sk. run (map clk [Suc i..<Suc i + k]) (snd u) = Some sk \<and> g sk"
  proof (intro allI impI)
    fix k assume "k < m"
    then have "Suc k < n" by (simp add: n)
    with all obtain sk where "run (map clk [i..<i + Suc k]) s = Some sk" "g sk" by blast
    then show "\<exists>sk. run (map clk [Suc i..<Suc i + k]) (snd u) = Some sk \<and> g sk"
      unfolding run_upt_Suc using u by auto
  qed
  with r1 ny have "loop_result g clk (Suc i) (snd u) y"
    unfolding loop_result_def by blast
  with u show "\<exists>r. update (fst (clk i)) (snd (clk i)) s = Some r \<and> loop_result g clk (Suc i) (snd r) y"
    by blast
next
  assume "\<exists>r. update (fst (clk i)) (snd (clk i)) s = Some r \<and> loop_result g clk (Suc i) (snd r) y"
  then obtain u m where u: "update (fst (clk i)) (snd (clk i)) s = Some u"
    and r1: "run (map clk [Suc i..<Suc i + m]) (snd u) = Some y" and ny: "\<not> g y"
    and all: "\<forall>k<m. \<exists>sk. run (map clk [Suc i..<Suc i + k]) (snd u) = Some sk \<and> g sk"
    by (auto simp: loop_result_def)
  have r: "run (map clk [i..<i + Suc m]) s = Some y"
    unfolding run_upt_Suc using u r1 by simp
  have "\<forall>k<Suc m. \<exists>sk. run (map clk [i..<i + k]) s = Some sk \<and> g sk"
  proof (intro allI impI)
    fix k assume k: "k < Suc m"
    show "\<exists>sk. run (map clk [i..<i + k]) s = Some sk \<and> g sk"
    proof (cases k)
      case 0
      with g show ?thesis by simp
    next
      case (Suc k')
      with k have "k' < m" by simp
      with all obtain sk where "run (map clk [Suc i..<Suc i + k']) (snd u) = Some sk" "g sk"
        by blast
      then show ?thesis
        unfolding Suc run_upt_Suc using u by simp
    qed
  qed
  with r ny show "loop_result g clk i s y"
    unfolding loop_result_def by blast
qed

lemma loop_result_unfold:
  "loop_result g clk i s y \<longleftrightarrow>
     (if g s
      then \<exists>r. update (fst (clk i)) (snd (clk i)) s = Some r \<and> loop_result g clk (Suc i) (snd r) y
      else y = s)"
  using loop_result_stop [of g s clk i y] loop_result_step [of g s clk i y] by simp

lemma loop_result_complete:
  assumes eq: "\<And>i s. L i s =
      (if g s then Option.bind (update (fst (clk i)) (snd (clk i)) s) (\<lambda>r. L (Suc i) (snd r))
       else Some s)"
    and res: "loop_result g clk i s y"
  shows "L i s = Some y"
proof -
  from res obtain n where r: "run (map clk [i..<i + n]) s = Some y" and ny: "\<not> g y"
    and all: "\<forall>k<n. \<exists>sk. run (map clk [i..<i + k]) s = Some sk \<and> g sk"
    by (auto simp: loop_result_def)
  then show ?thesis
  proof (induction n arbitrary: i s)
    case 0
    then have "y = s" by simp
    with 0 show ?case by (subst eq) simp
  next
    case (Suc n)
    have res': "loop_result g clk i s y"
      unfolding loop_result_def using Suc.prems by blast
    from Suc.prems(3) have g: "g s" by force
    with res' obtain u where u: "update (fst (clk i)) (snd (clk i)) s = Some u"
      and "loop_result g clk (Suc i) (snd u) y"
      by (auto simp: loop_result_step)
    have r1: "run (map clk [Suc i..<Suc i + n]) (snd u) = Some y"
      using Suc.prems(1) u unfolding run_upt_Suc by simp
    have all1: "\<forall>k<n. \<exists>sk. run (map clk [Suc i..<Suc i + k]) (snd u) = Some sk \<and> g sk"
    proof (intro allI impI)
      fix k assume "k < n"
      then have "Suc k < Suc n" by simp
      with Suc.prems(3) obtain sk where "run (map clk [i..<i + Suc k]) s = Some sk" "g sk" by blast
      then show "\<exists>sk. run (map clk [Suc i..<Suc i + k]) (snd u) = Some sk \<and> g sk"
        unfolding run_upt_Suc using u by auto
    qed
    from Suc.IH [OF r1 ny all1] have "L (Suc i) (snd u) = Some y" .
    with g u show ?case by (subst eq) simp
  qed
qed

lemma pulseBlocking_loop_sound:
  assumes "pulseBlocking_loop clk i s = Some s'"
  shows "loop_result (\<lambda>s. p_pulses (pulseState s) \<noteq> 0) clk i s s'"
  using assms
proof (rule pulseBlocking_loop.raw_induct [rotated])
  fix loop :: "clock \<Rightarrow> nat \<Rightarrow> buzzer \<Rightarrow> buzzer option" and clk i s y
  assume IH: "\<And>clk i s y. loop clk i s = Some y \<Longrightarrow>
        loop_result (\<lambda>s. p_pulses (pulseState s) \<noteq> 0) clk i s y"
    and step: "(if p_pulses (pulseState s) \<noteq> 0
      then Option.bind (update (fst (clk i)) (snd (clk i)) s) (\<lambda>r. loop clk (Suc i) (snd r))
      else Some s) = Some y"
  show "loop_result (\<lambda>s. p_pulses (pulseState s) \<noteq> 0) clk i s y"
  proof (cases "p_pulses (pulseState s) \<noteq> 0")
    case False
    with step have "y = s" by simp
    with False show ?thesis by (subst loop_result_unfold) simp
  next
    case True
    with step obtain r :: "bool \<times> buzzer" where "update (fst (clk i)) (snd (clk i)) s = Some r"
      and "loop clk (Suc i) (snd r) = Some y"
      by (auto simp: bind_eq_Some_conv)
    with IH True show ?thesis by (subst loop_result_unfold) auto
  qed
qed

lemma pulseBlocking_loop_iff:
  "pulseBlocking_loop clk i s = Some s' \<longleftrightarrow>
   loop_result (\<lambda>s. p_pulses (pulseState s) \<noteq> 0) clk i s s'"
  using pulseBlocking_loop_sound
    loop_result_complete [of "pulseBlocking_loop clk" "\<lambda>s. p_pulses (pulseState s) \<noteq> 0" clk,
      OF pulseBlocking_loop.simps]
  by blast

lemma patternBlocking_loop_sound:
  assumes "patternBlocking_loop clk i s = Some s'"
  shows "loop_result (\<lambda>s. pt_active (patternState s) \<or> p_active (pulseState s)) clk i s s'"
  using assms
proof (rule patternBlocking_loop.raw_induct [rotated])
  fix loop :: "clock \<Rightarrow> nat \<Rightarrow> buzzer \<Rightarrow> buzzer option" and clk i s y
  assume IH: "\<And>clk i s y. loop clk i s = Some y \<Longrightarrow>
        loop_result (\<lambda>s. pt_active (patternState s) \<or> p_active (pulseState s)) clk i s y"
    and step: "(if pt_active (patternState s) \<or> p_active (pulseState s)
      then Option.bind (update (fst (clk i)) (snd (clk i)) s) (\<lambda>r. loop clk (Suc i) (snd r))
      else Some s) = Some y"
  show "loop_result (\<lambda>s. pt_active (patternState s) \<or> p_active (pulseState s)) clk i s y"
  proof (cases "pt_active (patternState s) \<or> p_active (pulseState s)")
    case False
    with step have "y = s" by simp
    with False show ?thesis by (subst loop_result_unfold) simp
  next
    case True
    with step obtain r :: "bool \<times> buzzer" where "update (fst (clk i)) (snd (clk i)) s = Some r"
      and "loop clk (Suc i) (snd r) = Some y"
      by (auto simp: bind_eq_Some_conv)
    with IH True show ?thesis by (subst loop_result_unfold) auto
  qed
qed

lemma patternBlocking_loop_iff:
  "patternBlocking_loop clk i s = Some s' \<longleftrightarrow>
   loop_result (\<lambda>s. pt_active (patternState s) \<or> p_active (pulseState s)) clk i s s'"
  using patternBlocking_loop_sound
    loop_result_complete [of "patternBlocking_loop clk" "\<lambda>s. pt_active (patternState s) \<or> p_active (pulseState s)" clk,
      OF patternBlocking_loop.simps]
  by blast

lemma melodyBlocking_loop_sound:
  assumes "melodyBlocking_loop clk i s = Some s'"
  shows "loop_result (\<lambda>s. m_active (melodyState s)) clk i s s'"
  using assms
proof (rule melodyBlocking_loop.raw_induct [rotated])
  fix loop :: "clock \<Rightarrow> nat \<Rightarrow> buzzer \<Rightarrow> buzzer option" and clk i s y
  assume IH: "\<And>clk i s y. loop clk i s = Some y \<Longrightarrow>
        loop_result (\<lambda>s. m_active (melodyState s)) clk i s y"
    and step: "(if m_active (melodyState s)
      then Option.bind (update (fst (clk i)) (snd (clk i)) s) (\<lambda>r. loop clk (Suc i) (snd r))
      else Some s) = Some y"
  show "loop_result (\<lambda>s. m_active (melodyState s)) clk i s y"
  proof (cases "m_active (melodyState s)")
    case False
    with step have "y = s" by simp
    with False show ?thesis by (subst loop_result_unfold) simp
  next
    case True
    with step obtain r :: "bool \<times> buzzer" where "update (fst (clk i)) (snd (clk i)) s = Some r"
      and "loop clk (Suc i) (snd r) = Some y"
      by (auto simp: bind_eq_Some_conv)
    with IH True show ?thesis by (subst loop_result_unfold) auto
  qed
qed

lemma melodyBlocking_loop_iff:
  "melodyBlocking_loop clk i s = Some s' \<longleftrightarrow>
   loop_result (\<lambda>s. m_active (melodyState s)) clk i s s'"
  using melodyBlocking_loop_sound
    loop_result_complete [of "melodyBlocking_loop clk" "\<lambda>s. m_active (melodyState s)" clk,
      OF melodyBlocking_loop.simps]
  by blast

section \<open>The melody step by step\<close>

lemma melody_tick_step:
  assumes mt: "melody_tick now s = Some s'"
    and a: "m_tones (melodyState s) = Ptr a"
    and c: "m_current (melodyState s) < m_count (melodyState s)"
  shows "(t_frequency (a (unat (m_current (melodyState s)))) = 0 \<longrightarrow> tones_fired s' = tones_fired s) \<and>
         (m_current (melodyState s') \<noteq> m_current (melodyState s) \<longrightarrow>
            m_current (melodyState s') = m_current (melodyState s) + 1 \<and>
            m_toneStart (melodyState s) \<noteq> 0 \<and> \<not> m_playingTone (melodyState s) \<and>
            m_toneStart (melodyState s') = 0 \<and> \<not> m_playingTone (melodyState s') \<and>
            step_over now (m_toneStart (melodyState s)) (a (unat (m_current (melodyState s))))) \<and>
         (m_current (melodyState s') = m_current (melodyState s) \<and> m_toneStart (melodyState s) \<noteq> 0 \<longrightarrow>
            m_toneStart (melodyState s') = m_toneStart (melodyState s)) \<and>
         (m_toneStart (melodyState s) = 0 \<longrightarrow>
            m_current (melodyState s') = m_current (melodyState s) \<and>
            m_toneStart (melodyState s') = now) \<and>
         (m_toneStart (melodyState s) \<noteq> 0 \<and> \<not> m_playingTone (melodyState s) \<longrightarrow>
            (m_current (melodyState s') = m_current (melodyState s) + 1) =
            step_over now (m_toneStart (melodyState s)) (a (unat (m_current (melodyState s)))))"
  using mt a c
  by (auto simp: melody_tick_def Let_def tones_fired_def split: if_splits)

lemma step_over_unat:
  "step_over now start t = (unat (t_duration t) + unat (t_rest t) \<le> unat (now - start))"
  by (simp add: step_over_def word_le_nat_alt unat_sum16)

section \<open>The code's pulse train against the specification's\<close>

lemma of_nat32_neq_0: "0 < l \<Longrightarrow> l < 2 ^ 32 \<Longrightarrow> (of_nat l :: u32) \<noteq> 0"
  using unat_of_nat32 [of l] by auto

lemma elapsed32:
  assumes "l \<le> t" "t < 2 ^ 32"
  shows "unat (of_nat t - of_nat l :: u32) = t - l"
proof -
  have eq: "(of_nat t - of_nat l :: u32) = of_nat (t - l)"
    using assms by (simp add: of_nat_diff)
  have "t - l < 2 ^ 32" using assms by simp
  then have "unat (of_nat (t - l) :: u32) = t - l" by (rule unat_of_nat32)
  with eq show ?thesis by simp
qed

lemma pulse_due_train:
  assumes rel: "train_rel gap tr s"
    and t: "0 < t" "t < 2 ^ 32"
    and mono: "\<And>l. last_fire tr = Some l \<Longrightarrow> l \<le> t"
  shows "pulse_due (of_nat t) (pulseState s) = train_due gap t tr"
proof (cases "last_fire tr")
  case None
  with rel show ?thesis by (simp add: train_rel_def pulse_due_def train_due_def)
next
  case (Some l)
  with rel have l: "p_last (pulseState s) = of_nat l" "0 < l" "l < 2 ^ 32"
    and gap: "unat (p_interval (pulseState s)) + unat (p_duration (pulseState s)) = gap"
    by (simp_all add: train_rel_def)
  from mono Some have "l \<le> t" by simp
  with t have "unat (of_nat t - of_nat l :: u32) = t - l" by (simp add: elapsed32)
  with l gap Some \<open>l \<le> t\<close> show ?thesis
    by (auto simp add: pulse_due_def train_due_def word_le_nat_alt unat_sum16 of_nat32_neq_0)
qed

lemma unat_pred8: "0 < (w :: u8) \<Longrightarrow> unat (w - 1) = unat w - 1"
  by (simp add: unat_minus_one word_neq_0_conv)

lemma update_train:
  assumes rel: "train_rel gap tr s"
    and t: "0 < t" "t < 2 ^ 32"
    and mono: "\<And>l. last_fire tr = Some l \<Longrightarrow> l \<le> t"
  shows "\<exists>r s'. update (of_nat t) (of_nat t) s = Some (r, s') \<and>
           train_rel gap (snd (train_tick gap t tr)) s' \<and>
           (tones_fired s < tones_fired s') = fst (train_tick gap t tr) \<and>
           driver s' = driver s @
             (if fst (train_tick gap t tr)
              then [CallTone (c_pin (config s)) (p_frequency (pulseState s)) (p_duration (pulseState s))]
              else []) \<and>
           config s' = config s \<and> p_frequency (pulseState s') = p_frequency (pulseState s) \<and>
           p_duration (pulseState s') = p_duration (pulseState s)"
proof (cases "running tr")
  case False
  with rel have "update (of_nat t) (of_nat t) s = Some (False, s)"
    by (simp add: train_rel_def update_def pattern_tick_def melody_guard_def Let_def)
  with False rel show ?thesis
    by (auto simp: train_tick_def)
next
  case True
  with rel have br: "p_active (pulseState s) \<and> c_pin (config s) \<noteq> 255"
    by (simp add: train_rel_def)
  then have u: "update (of_nat t) (of_nat t) s = Some (pulse_tick (of_nat t) (of_nat t) s)"
    by (simp add: update_def)
  have due: "pulse_due (of_nat t) (pulseState s) = train_due gap t tr"
    using rel t mono by (rule pulse_due_train)
  have pos: "(0 < p_pulses (pulseState s)) = (0 < remaining tr)"
    using rel by (auto simp: train_rel_def word_less_nat_alt)
  show ?thesis
  proof (cases "0 < remaining tr")
    case z: False
    with True rel u pos show ?thesis
      by (auto simp: pulse_tick_def train_tick_def Let_def train_rel_def tones_fired_def
          split: option.splits)
  next
    case p: True
    show ?thesis
    proof (cases "train_due gap t tr")
      case d: False
      with True p rel u pos due show ?thesis
        by (auto simp: pulse_tick_def train_tick_def Let_def)
    next
      case d: True
      have "unat (p_pulses (pulseState s) - 1) = remaining tr - 1"
        using pos p rel by (simp add: unat_pred8 train_rel_def)
      with True p d rel u pos due t show ?thesis
        by (auto simp: pulse_tick_def train_tick_def Let_def train_rel_def tones_fired_def
            split: option.splits)
    qed
  qed
qed

lemma train_tick_last:
  "last_fire (snd (train_tick gap t tr)) = Some l \<Longrightarrow> l = t \<or> last_fire tr = Some l"
  by (auto simp: train_tick_def split: if_splits)

lemma run_train:
  assumes "train_rel gap tr s" "sorted ts" "\<forall>t\<in>set ts. 0 < t \<and> t < 2 ^ 32"
    and "\<And>l. last_fire tr = Some l \<Longrightarrow> \<forall>t\<in>set ts. l \<le> t"
  shows "\<exists>s'. run (map at_ms ts) s = Some s' \<and>
           fires (map at_ms ts) s = train_fires gap ts tr \<and>
           train_rel gap (train_run gap ts tr) s' \<and>
           driver s' = driver s @
             replicate (length (filter (\<lambda>b. b) (train_fires gap ts tr)))
               (CallTone (c_pin (config s)) (p_frequency (pulseState s)) (p_duration (pulseState s)))"
  using assms
proof (induction ts arbitrary: tr s)
  case Nil
  then show ?case by simp
next
  case (Cons t ts)
  have t: "0 < t" "t < 2 ^ 32" using Cons.prems(3) by simp_all
  have mono: "\<And>l. last_fire tr = Some l \<Longrightarrow> l \<le> t"
    using Cons.prems(4) by simp
  from update_train [OF Cons.prems(1) t mono]
  obtain r s1 where u: "update (of_nat t) (of_nat t) s = Some (r, s1)"
    and rel1: "train_rel gap (snd (train_tick gap t tr)) s1"
    and f1: "(tones_fired s < tones_fired s1) = fst (train_tick gap t tr)"
    and d1: "driver s1 = driver s @
             (if fst (train_tick gap t tr)
              then [CallTone (c_pin (config s)) (p_frequency (pulseState s)) (p_duration (pulseState s))]
              else [])"
    and k1: "config s1 = config s" "p_frequency (pulseState s1) = p_frequency (pulseState s)"
      "p_duration (pulseState s1) = p_duration (pulseState s)"
    by blast
  have sorted: "sorted ts" and ge: "\<forall>x\<in>set ts. t \<le> x"
    using Cons.prems(2) by simp_all
  have rng: "\<forall>t\<in>set ts. 0 < t \<and> t < 2 ^ 32"
    using Cons.prems(3) by simp
  have mono1: "\<And>l. last_fire (snd (train_tick gap t tr)) = Some l \<Longrightarrow> \<forall>x\<in>set ts. l \<le> x"
  proof -
    fix l assume "last_fire (snd (train_tick gap t tr)) = Some l"
    then have "l = t \<or> last_fire tr = Some l" by (rule train_tick_last)
    then show "\<forall>x\<in>set ts. l \<le> x"
      using ge Cons.prems(4) by auto
  qed
  from Cons.IH [OF rel1 sorted rng mono1]
  obtain s' where r: "run (map at_ms ts) s1 = Some s'"
    and f: "fires (map at_ms ts) s1 = train_fires gap ts (snd (train_tick gap t tr))"
    and rel: "train_rel gap (train_run gap ts (snd (train_tick gap t tr))) s'"
    and d: "driver s' = driver s1 @
             replicate (length (filter (\<lambda>b. b) (train_fires gap ts (snd (train_tick gap t tr)))))
               (CallTone (c_pin (config s1)) (p_frequency (pulseState s1)) (p_duration (pulseState s1)))"
    by blast
  have "run (map at_ms (t # ts)) s = Some s'"
    using u r by (simp add: at_ms_def at_def)
  moreover have "fires (map at_ms (t # ts)) s = train_fires gap (t # ts) tr"
    using u f f1 by (simp add: at_ms_def at_def)
  moreover have "train_rel gap (train_run gap (t # ts) tr) s'"
    using rel by simp
  moreover have "driver s' = driver s @
             replicate (length (filter (\<lambda>b. b) (train_fires gap (t # ts) tr)))
               (CallTone (c_pin (config s)) (p_frequency (pulseState s)) (p_duration (pulseState s)))"
    using d d1 k1 by (simp add: replicate_app_Cons_same)
  ultimately show ?case by blast
qed

lemma pulse_train_rel:
  assumes "c_pin (config s) \<noteq> 255" "\<not> pt_active (patternState s)" "\<not> m_active (melodyState s)"
    and "count \<noteq> 0"
  shows "train_rel (unat i + unat d) \<lparr>remaining = unat count, last_fire = None, running = True\<rparr>
           (pulse count f d i s)"
  using assms by (simp add: train_rel_def pulse_def mk_Pulse_def)

lemma idle_update:
  assumes "\<not> p_active (pulseState s)" "\<not> pt_active (patternState s)" "\<not> m_active (melodyState s)"
  shows "update t1 t2 s = Some (False, s)"
  using assms by (simp add: update_def pattern_tick_def melody_guard_def Let_def)

lemma idle_run:
  assumes "\<not> p_active (pulseState s)" "\<not> pt_active (patternState s)" "\<not> m_active (melodyState s)"
  shows "run us s = Some s \<and> fires us s = replicate (length us) False"
  using assms by (induction us) (simp_all add: idle_update)

lemma run_append:
  "run (xs @ ys) s = Option.bind (run xs s) (run ys)"
  by (induction xs arbitrary: s) (auto split: Option.bind_splits)

lemma fires_append:
  "run xs s = Some s' \<Longrightarrow> fires (xs @ ys) s = fires xs s @ fires ys s'"
  by (induction xs arbitrary: s) (auto split: Option.bind_splits)

lemma scenario_0_70_140:
  assumes "c_pin (config s) \<noteq> 255" "\<not> pt_active (patternState s)" "\<not> m_active (melodyState s)"
  shows "\<exists>s'. run (map at_ms [0, 70, 140, 141]) (pulse 3 1000 50 20 s) = Some s' \<and>
           fires (map at_ms [0, 70, 140, 141]) (pulse 3 1000 50 20 s) = [True, True, True, False] \<and>
           \<not> p_active (pulseState s') \<and> \<not> pt_active (patternState s') \<and> \<not> m_active (melodyState s') \<and>
           driver s' = driver s @ replicate 3 (CallTone (c_pin (config s)) 1000 50)"
  using assms
  by (simp add: at_ms_def at_def update_def pulse_def mk_Pulse_def pulse_tick_def pulse_due_def
      sum16_def Let_def tones_fired_def numeral_3_eq_3)

lemma train_fires_bound:
  "length (filter (\<lambda>b. b) (train_fires gap ts tr)) \<le> remaining tr"
proof (induction ts arbitrary: tr)
  case Nil
  then show ?case by simp
next
  case (Cons t ts)
  have "length (filter (\<lambda>b. b) (train_fires gap ts (snd (train_tick gap t tr))))
          \<le> remaining (snd (train_tick gap t tr))"
    by (rule Cons.IH)
  then show ?case
    by (auto simp: train_tick_def split: if_splits)
qed

section \<open>Claims about requests and wrappers\<close>

text \<open>
  Claim C8. A request with invalid input is a silent no-op: \<open>pulse\<close> with count 0,
  \<open>pattern\<close> and \<open>melody\<close> with a null list or count 0, and each of the three when no
  pin is configured (pin 255), return the state they were given: the pulse, pattern and
  melody state are untouched and the pin driver is not called. The three functions are
  total, so none of them aborts.
\<close>

theorem invalid_request_is_noop:
  "pulse 0 f d i s = s \<and>
   pattern Null c r pd s = s \<and> pattern ps 0 r pd s = s \<and>
   melody Null c r s = s \<and> melody ts 0 r s = s \<and>
   (c_pin (config s) = 255 \<longrightarrow>
      pulse c f d i s = s \<and> pattern ps c r pd s = s \<and> melody ts c r s = s)"
  by (simp add: pulse_def pattern_def melody_def split: ptr.splits)

theorem invalid_request_is_noop_witness:
  "c_pin (config initial) = 255 \<and>
   pulse 2 1000 50 20 initial = initial \<and>
   pattern beeps 2 False 300 initial = initial \<and>
   melody tune 2 False initial = initial \<and>
   pulse 0 1000 50 20 (pulse 3 800 30 50 (configured 8)) = pulse 3 800 30 50 (configured 8)"
proof -
  have pin: "c_pin (config initial) = 255"
    by (simp add: initial_def Config_default_def)
  from pin invalid_request_is_noop [where f = 1000 and d = 50 and i = 20 and s = initial
      and c = 2 and ps = beeps and r = False and pd = 300 and ts = tune]
  have "pulse 2 1000 50 20 initial = initial \<and> pattern beeps 2 False 300 initial = initial \<and>
        melody tune 2 False initial = initial"
    by blast
  moreover from invalid_request_is_noop [where f = 1000 and d = 50 and i = 20
      and s = "pulse 3 800 30 50 (configured 8)"]
  have "pulse 0 1000 50 20 (pulse 3 800 30 50 (configured 8)) = pulse 3 800 30 50 (configured 8)"
    by blast
  ultimately show ?thesis using pin by blast
qed

text \<open>
  Claim C9, as amended. Each blocking wrapper starts the non-blocking operation and then
  does nothing but call \<open>update()\<close> while its loop condition holds: it returns a state
  exactly when some number n of successive calls of \<open>update()\<close>, made from the state the
  start operation left, makes the loop condition false for the first time, and the
  state it returns is the state after those n calls. The wrapper has no timing logic of
  its own. The loop condition of \<open>patternBlocking\<close> is "pattern or pulse train active" and
  that of \<open>melodyBlocking\<close> is "melody active", so on return these flags are clear. The
  loop condition of \<open>pulseBlocking\<close> is the remaining pulse count instead: on return that
  count is 0 (the last tone has been started); the active flag of the pulse train is
  not part of its loop condition.
\<close>

theorem blocking_wrappers_on_return:
  "(pulseBlocking clk c f d i s = Some s' \<longleftrightarrow>
      (\<exists>n. run (map clk [0..<n]) (pulse c f d i s) = Some s' \<and>
           p_pulses (pulseState s') = 0 \<and>
           (\<forall>k<n. \<exists>sk. run (map clk [0..<k]) (pulse c f d i s) = Some sk \<and>
                      p_pulses (pulseState sk) \<noteq> 0))) \<and>
   (patternBlocking clk ps c r pd s = Some s' \<longleftrightarrow>
      (\<exists>n. run (map clk [0..<n]) (pattern ps c r pd s) = Some s' \<and>
           \<not> pt_active (patternState s') \<and> \<not> p_active (pulseState s') \<and>
           (\<forall>k<n. \<exists>sk. run (map clk [0..<k]) (pattern ps c r pd s) = Some sk \<and>
                      (pt_active (patternState sk) \<or> p_active (pulseState sk))))) \<and>
   (melodyBlocking clk ts c r s = Some s' \<longleftrightarrow>
      (\<exists>n. run (map clk [0..<n]) (melodyBlocking_start ts c r s) = Some s' \<and>
           \<not> m_active (melodyState s') \<and>
           (\<forall>k<n. \<exists>sk. run (map clk [0..<k]) (melodyBlocking_start ts c r s) = Some sk \<and>
                      m_active (melodyState sk))))"
  unfolding pulseBlocking_def patternBlocking_def melodyBlocking_def
    pulseBlocking_loop_iff patternBlocking_loop_iff melodyBlocking_loop_iff loop_result_def
  by simp

theorem blocking_wrappers_on_return_witness:
  "(\<exists>s' n. pulseBlocking (clock_every 10) 3 1000 50 20 (configured 8) = Some s' \<and>
      run (map (clock_every 10) [0..<n]) (pulse 3 1000 50 20 (configured 8)) = Some s' \<and>
      p_pulses (pulseState s') = 0) \<and>
   (\<exists>s' n. patternBlocking (clock_every 100) beeps 2 False 300 (configured 8) = Some s' \<and>
      run (map (clock_every 100) [0..<n]) (pattern beeps 2 False 300 (configured 8)) = Some s' \<and>
      \<not> pt_active (patternState s') \<and> \<not> p_active (pulseState s')) \<and>
   (\<exists>s' n. melodyBlocking (clock_every 50) tune 3 False (configured 8) = Some s' \<and>
      run (map (clock_every 50) [0..<n]) (melodyBlocking_start tune 3 False (configured 8)) = Some s' \<and>
      \<not> m_active (melodyState s'))"
proof -
  have "map_option (\<lambda>s. ()) (pulseBlocking (clock_every 10) 3 1000 50 20 (configured 8)) = Some ()"
    by code_simp
  then obtain s1 where s1: "pulseBlocking (clock_every 10) 3 1000 50 20 (configured 8) = Some s1"
    by auto
  have "map_option (\<lambda>s. ()) (patternBlocking (clock_every 100) beeps 2 False 300 (configured 8)) = Some ()"
    by code_simp
  then obtain s2 where s2: "patternBlocking (clock_every 100) beeps 2 False 300 (configured 8) = Some s2"
    by auto
  have "map_option (\<lambda>s. ()) (melodyBlocking (clock_every 50) tune 3 False (configured 8)) = Some ()"
    by code_simp
  then obtain s3 where s3: "melodyBlocking (clock_every 50) tune 3 False (configured 8) = Some s3"
    by auto
  from s1 blocking_wrappers_on_return [where clk = "clock_every 10" and c = 3 and f = 1000
      and d = 50 and i = 20 and s = "configured 8" and s' = s1]
  have A: "\<exists>n. run (map (clock_every 10) [0..<n]) (pulse 3 1000 50 20 (configured 8)) = Some s1 \<and>
      p_pulses (pulseState s1) = 0"
    by blast
  from s2 blocking_wrappers_on_return [where clk = "clock_every 100" and ps = beeps and c = 2
      and r = False and pd = 300 and s = "configured 8" and s' = s2]
  have B: "\<exists>n. run (map (clock_every 100) [0..<n]) (pattern beeps 2 False 300 (configured 8)) = Some s2 \<and>
      \<not> pt_active (patternState s2) \<and> \<not> p_active (pulseState s2)"
    by blast
  from s3 blocking_wrappers_on_return [where clk = "clock_every 50" and ts = tune and c = 3
      and r = False and s = "configured 8" and s' = s3]
  have C: "\<exists>n. run (map (clock_every 50) [0..<n]) (melodyBlocking_start tune 3 False (configured 8)) = Some s3 \<and>
      \<not> m_active (melodyState s3)"
    by blast
  from s1 s2 s3 A B C show ?thesis by blast
qed

text \<open>
  Claim C9 as stated fails for \<open>pulseBlocking\<close>: started with three pulses on pin 8 and a
  clock advancing 10 ms per iteration, it returns while the pulse train it drove is still
  flagged active.
\<close>

theorem pulseBlocking_returns_active_counterexample:
  "map_option (\<lambda>s. p_active (pulseState s))
     (pulseBlocking (clock_every 10) 3 1000 50 20 (configured 8)) = Some True"
  by code_simp

text \<open>
  Claim C10. \<open>melodyBlocking(tones, count, repeat)\<close> behaves as
  \<open>melodyBlocking(tones, count, false)\<close>: the wrapper enters its loop with the repeat flag
  false whatever was passed, the flag is still false when it returns, and so the result
  of the call is the same for both values of the argument.
\<close>

theorem melodyBlocking_ignores_repeat:
  "melodyBlocking clk tones count repeat s = melodyBlocking clk tones count False s \<and>
   \<not> m_repeat (melodyState (melodyBlocking_start tones count repeat s)) \<and>
   (melodyBlocking clk tones count repeat s = Some s' \<longrightarrow> \<not> m_repeat (melodyState s'))"
proof -
  have start: "melodyBlocking_start tones count repeat s = melodyBlocking_start tones count False s"
    by (simp add: melodyBlocking_start_def melody_def Let_def split: ptr.splits)
  have flag: "\<not> m_repeat (melodyState (melodyBlocking_start tones count repeat s))"
    by (simp add: melodyBlocking_start_def Let_def)
  from start flag melodyBlocking_loop_repeat show ?thesis
    unfolding melodyBlocking_def by metis
qed

theorem melodyBlocking_ignores_repeat_witness:
  "melodyBlocking (clock_every 50) tune 3 True (configured 8) =
     melodyBlocking (clock_every 50) tune 3 False (configured 8) \<and>
   (\<exists>s'. melodyBlocking (clock_every 50) tune 3 True (configured 8) = Some s' \<and>
         \<not> m_repeat (melodyState s') \<and> tones_fired s' = 2)"
proof -
  have "map_option tones_fired (melodyBlocking (clock_every 50) tune 3 True (configured 8)) = Some 2"
    by code_simp
  then obtain s1 where s1: "melodyBlocking (clock_every 50) tune 3 True (configured 8) = Some s1"
    and "tones_fired s1 = 2"
    by auto
  with melodyBlocking_ignores_repeat [of "clock_every 50" tune 3 True "configured 8" s1]
  show ?thesis by metis
qed

text \<open>
  Claim C5, the code at a failing input. A pattern is started on pin 8 and the first
  call of \<open>update()\<close> starts its first tone (800 Hz for 30 ms). \<open>stopPattern()\<close> then
  clears both active flags and makes no call on the pin driver, so the tone sounds on;
  \<open>stopMelody()\<close> in the same situation ends with \<open>noTone\<close>.
\<close>

theorem stopPattern_makes_no_driver_call:
  "map_option (\<lambda>r. driver (stopPattern (snd r)))
     (update 1 1 (pattern beeps 2 False 300 (configured 8))) = Some [CallTone 8 800 30] \<and>
   map_option (\<lambda>r. isPatternActive (stopPattern (snd r)) \<or> p_active (pulseState (stopPattern (snd r))))
     (update 1 1 (pattern beeps 2 False 300 (configured 8))) = Some False \<and>
   map_option (\<lambda>r. driver (stopMelody (snd r)))
     (update 1 1 (melody tune 3 False (configured 8))) =
     Some [CallNoTone 8, CallTone 8 440 100, CallNoTone 8]"
  by code_simp




text \<open>
  Claim C3, as amended. \<open>update()\<close> can return true only on the path of the pulse train
  (pulse train active, pin configured); on every other path, the one on which a melody
  step starts its tone included, it returns false. Whenever the pulse train fires a
  tone, the call returns true. A call that returns true has fired a tone of the pulse
  train, provided the last-fire timestamp stored before the call differs from the clock
  value of the call.
\<close>

theorem update_result:
  assumes "update t1 t2 s = Some (r, s')"
  shows "(r \<longrightarrow> p_active (pulseState s) \<and> c_pin (config s) \<noteq> 255) \<and>
         (p_active (pulseState s) \<and> c_pin (config s) \<noteq> 255 \<and> driver s' \<noteq> driver s \<longrightarrow> r) \<and>
         (r \<and> p_last (pulseState s) \<noteq> t1 \<longrightarrow>
            driver s' = driver s @
              [CallTone (c_pin (config s)) (p_frequency (pulseState s)) (p_duration (pulseState s))])"
proof (cases "p_active (pulseState s) \<and> c_pin (config s) \<noteq> 255")
  case True
  with assms have "(r, s') = pulse_tick t1 t2 s"
    by (simp add: update_def)
  then show ?thesis using True
    by (auto simp: pulse_tick_def Let_def split: if_splits)
next
  case False
  with assms have "\<not> r"
    by (auto simp: update_def split: prod.splits if_splits)
  with False show ?thesis by blast
qed

theorem update_result_witness:
  "\<exists>s'. update 5 5 (pulse 3 1000 50 20 (configured 8)) = Some (True, s') \<and>
        driver s' = [CallTone 8 1000 50]"
proof -
  have "map_option fst (update 5 5 (pulse 3 1000 50 20 (configured 8))) = Some True"
    by code_simp
  then obtain s' where u: "update 5 5 (pulse 3 1000 50 20 (configured 8)) = Some (True, s')"
    by auto
  have "p_last (pulseState (pulse 3 1000 50 20 (configured 8))) \<noteq> 5"
    by code_simp
  moreover have "driver (pulse 3 1000 50 20 (configured 8)) @
      [CallTone (c_pin (config (pulse 3 1000 50 20 (configured 8))))
         (p_frequency (pulseState (pulse 3 1000 50 20 (configured 8))))
         (p_duration (pulseState (pulse 3 1000 50 20 (configured 8))))] = [CallTone 8 1000 50]"
    by code_simp
  ultimately have "driver s' = [CallTone 8 1000 50]"
    using update_result [OF u] by simp
  with u show ?thesis by blast
qed

text \<open>
  Claim C3 as stated fails in both directions. The call in which a melody starts its
  first tone (440 Hz) returns false. And a second call of \<open>update()\<close> within the
  millisecond in which the pulse train fired returns true although it fires nothing.
\<close>

theorem update_result_counterexample:
  "map_option (\<lambda>r. (fst r, driver (snd r))) (update 5 5 (melody tune 3 False (configured 8))) =
     Some (False, [CallNoTone 8, CallTone 8 440 100]) \<and>
   Option.bind (update 5 5 (pulse 3 1000 50 20 (configured 8)))
     (\<lambda>r1. map_option (\<lambda>r2. (fst r2, driver (snd r2) = driver (snd r1))) (update 5 5 (snd r1))) =
     Some (True, True)"
  by code_simp

section \<open>Claims about time\<close>

text \<open>
  Claim C4, as amended. A call of \<open>update()\<close> leaves every field of the melody state
  unchanged when the pulse train is active on entry, and when the pulse train or the
  pattern is active at the end of the call (also when no pin is configured or the melody
  is not active). The step-start timestamp of the melody is an absolute clock value and
  is not adjusted for the pause: once the melody is ticked again, a resting step ends as
  soon as \<open>now - toneStart\<close> has reached duration + rest, whatever part of that time was
  spent paused.
\<close>

theorem melody_paused:
  assumes "update t1 t2 s = Some (r, s')"
  shows "(p_active (pulseState s) \<or> p_active (pulseState s') \<or> pt_active (patternState s') \<or>
          c_pin (config s) = 255 \<or> \<not> m_active (melodyState s) \<longrightarrow>
            melodyState s' = melodyState s) \<and>
         (melody_guard s \<and> m_current (melodyState s) < m_count (melodyState s) \<and>
          m_tones (melodyState s) = Ptr a \<and> m_toneStart (melodyState s) \<noteq> 0 \<and>
          \<not> m_playingTone (melodyState s) \<and>
          step_over t1 (m_toneStart (melodyState s)) (a (unat (m_current (melodyState s)))) \<longrightarrow>
            m_current (melodyState s') = m_current (melodyState s) + 1)"
proof (cases "p_active (pulseState s) \<and> c_pin (config s) \<noteq> 255")
  case True
  with assms have "s' = snd (pulse_tick t1 t2 s)"
    by (auto simp: update_def)
  with True show ?thesis
    by (simp add: pulse_tick_frame melody_guard_def)
next
  case False
  obtain s1 rd where pt: "pattern_tick t1 s = (s1, rd)"
    by (cases "pattern_tick t1 s")
  then have s1: "melodyState s1 = melodyState s" "config s1 = config s"
    using pattern_tick_frame [of t1 s] by simp_all
  show ?thesis
  proof (cases "melody_guard s1")
    case g: False
    with False pt assms have "s' = s1" by (auto simp: update_def)
    with s1 g have A: "melodyState s' = melodyState s" by simp
    have "\<not> melody_guard s" using g pt
      by (auto simp: melody_guard_def pattern_tick_def Let_def split: if_splits)
    with A show ?thesis by simp
  next
    case g: True
    with False pt assms have mt: "melody_tick (if rd then t2 else t1) s1 = Some s'"
      by (auto simp: update_def)
    from melody_tick_frame [OF mt] g s1 False
    have A: "\<not> (p_active (pulseState s) \<or> p_active (pulseState s') \<or> pt_active (patternState s') \<or>
          c_pin (config s) = 255 \<or> \<not> m_active (melodyState s))"
      by (auto simp: melody_guard_def)
    have B: "melody_guard s \<Longrightarrow> s1 = s \<and> \<not> rd"
      using pt by (auto simp: melody_guard_def pattern_tick_def Let_def)
    show ?thesis using A B mt
      by (auto simp: melody_tick_def Let_def split: if_splits)
  qed
qed

theorem melody_paused_witness:
  "(\<exists>r s'. update 20 20 (pulse 1 1000 50 20 (melody tune 3 False (configured 8))) = Some (r, s') \<and>
      melodyState s' = melodyState (pulse 1 1000 50 20 (melody tune 3 False (configured 8)))) \<and>
   (\<exists>r s'. update 501 501 melody_resting = Some (r, s') \<and> m_current (melodyState s') = 1)"
proof -
  let ?s = "pulse 1 1000 50 20 (melody tune 3 False (configured 8))"
  have "map_option (\<lambda>r. ()) (update 20 20 ?s) = Some ()"
    by code_simp
  then obtain r s' where u: "update 20 20 ?s = Some (r, s')"
    by auto
  have "p_active (pulseState ?s)"
    by code_simp
  with melody_paused [OF u] have A: "melodyState s' = melodyState ?s"
    by blast
  have "map_option (\<lambda>r. ()) (update 501 501 melody_resting) = Some ()"
    by code_simp
  then obtain q v' where v: "update 501 501 melody_resting = Some (q, v')"
    by auto
  obtain a where a: "m_tones (melodyState melody_resting) = Ptr a"
    and a0: "a 0 = \<lparr>t_frequency = 440, t_duration = 100, t_rest = 50\<rparr>"
    by (simp add: melody_resting_def melody_def tune_def array_of_def Let_def
        stopMelody_def configured_def)
  have g: "melody_guard melody_resting \<and>
           m_current (melodyState melody_resting) < m_count (melodyState melody_resting) \<and>
           m_toneStart (melodyState melody_resting) \<noteq> 0 \<and>
           \<not> m_playingTone (melodyState melody_resting)"
    by code_simp
  have cur: "m_current (melodyState melody_resting) = 0"
    "m_toneStart (melodyState melody_resting) = 10"
    by code_simp+
  have "step_over 501 (m_toneStart (melodyState melody_resting))
          (a (unat (m_current (melodyState melody_resting))))"
    by (simp add: cur a0 step_over_def sum16_def)
  with g a melody_paused [OF v, where a = a]
  have "m_current (melodyState v') = m_current (melodyState melody_resting) + 1"
    by blast
  then have "m_current (melodyState v') = 1"
    by (simp add: cur)
  with u A v show ?thesis by blast
qed

text \<open>
  Claim C4 as stated fails twice over. First, in the call in which a non-repeating
  pattern ends, the pattern is active on entry and yet the melody is ticked: here the
  call at 400 ms begins the first melody step (step start 400, tone of 440 Hz). Second,
  a paused step does not keep its remaining time. The first step of the melody (100 ms
  of tone, 50 ms of rest) begins at 10 ms; a pulse started at once holds the melody
  back until 500 ms; the calls at 501 and 502 ms then end the tone and the step, while
  without the pulse the same two calls 1 and 2 ms after the step began leave the melody
  sounding in its first step.
\<close>

theorem melody_paused_counterexample:
  "Option.bind (run (map at [1, 2]) (pattern beeps 1 False 300 (melody tune 3 False (configured 8))))
     (\<lambda>u. map_option
        (\<lambda>r. (isPatternActive u, m_toneStart (melodyState u),
              m_toneStart (melodyState (snd r)), driver (snd r)))
        (update 400 400 u)) =
     Some (True, 0, 400, [CallNoTone 8, CallTone 8 800 30, CallTone 8 440 100]) \<and>
   Option.bind (run [at 10] (melody tune 3 False (configured 8)))
     (\<lambda>s1. map_option (\<lambda>s2. (m_current (melodyState s2), m_playingTone (melodyState s2)))
        (run (map at [20, 500, 501, 502]) (pulse 1 1000 50 20 s1))) = Some (1, False) \<and>
   map_option (\<lambda>s2. (m_current (melodyState s2), m_playingTone (melodyState s2)))
     (run (map at [10, 11, 12]) (melody tune 3 False (configured 8))) = Some (0, True)"
  by code_simp




section \<open>Claims about the melody steps and the pulse train\<close>

lemma melody_step_call:
  assumes u: "update t1 t2 s = Some (r, s')"
    and a: "m_tones (melodyState s) = Ptr a"
    and c: "m_current (melodyState s) < m_count (melodyState s)"
  shows
    "(let m = melodyState s; m' = melodyState s'; step = a (unat (m_current m));
          needed = unat (t_duration step) + unat (t_rest step) in
      (\<not> p_active (pulseState s) \<and> t_frequency step = 0 \<longrightarrow> tones_fired s' = tones_fired s) \<and>
      (m_current m' \<noteq> m_current m \<longrightarrow>
         m_current m' = m_current m + 1 \<and> m_toneStart m \<noteq> 0 \<and> \<not> m_playingTone m \<and>
         m_toneStart m' = 0 \<and> \<not> m_playingTone m' \<and>
         (needed \<le> unat (t1 - m_toneStart m) \<or> needed \<le> unat (t2 - m_toneStart m))) \<and>
      (m_current m' = m_current m \<and> m_toneStart m \<noteq> 0 \<longrightarrow> m_toneStart m' = m_toneStart m) \<and>
      (m_toneStart m = 0 \<longrightarrow>
         m_current m' = m_current m \<and> m_toneStart m' \<in> {0, t1, t2}) \<and>
      (melody_guard s \<and> m_toneStart m \<noteq> 0 \<and> \<not> m_playingTone m \<longrightarrow>
         (m_current m' = m_current m + 1) = (needed \<le> unat (t1 - m_toneStart m))))"
proof (cases "p_active (pulseState s) \<and> c_pin (config s) \<noteq> 255")
  case True
  with u have "s' = snd (pulse_tick t1 t2 s)"
    by (auto simp: update_def)
  then have "melodyState s' = melodyState s"
    by (simp add: pulse_tick_frame)
  with True show ?thesis
    by (simp add: Let_def melody_guard_def)
next
  case False
  obtain s1 rd where pt: "pattern_tick t1 s = (s1, rd)"
    by (cases "pattern_tick t1 s")
  then have s1: "melodyState s1 = melodyState s" "driver s1 = driver s"
    using pattern_tick_frame [of t1 s] by simp_all
  then have tf: "tones_fired s1 = tones_fired s"
    by (simp add: tones_fired_def)
  show ?thesis
  proof (cases "melody_guard s1")
    case g: False
    with False pt u have "s' = s1" by (auto simp: update_def)
    moreover have "\<not> melody_guard s" using g pt
      by (auto simp: melody_guard_def pattern_tick_def Let_def split: if_splits)
    ultimately show ?thesis using s1 tf
      by (simp add: Let_def)
  next
    case g: True
    with False pt u have mt: "melody_tick (if rd then t2 else t1) s1 = Some s'"
      by (auto simp: update_def)
    define now where "now = (if rd then t2 else t1)"
    have now: "now = t1 \<or> now = t2"
      by (simp add: now_def)
    have B: "melody_guard s \<Longrightarrow> now = t1"
      using pt by (auto simp: now_def melody_guard_def pattern_tick_def Let_def)
    from a c s1 have a1: "m_tones (melodyState s1) = Ptr a"
      and c1: "m_current (melodyState s1) < m_count (melodyState s1)"
      by simp_all
    note F = melody_tick_step [OF mt [folded now_def] a1 c1, unfolded s1 tf step_over_unat]
    have 1: "t_frequency (a (unat (m_current (melodyState s)))) = 0 \<longrightarrow>
             tones_fired s' = tones_fired s"
      using F by blast
    have 2: "m_current (melodyState s') \<noteq> m_current (melodyState s) \<longrightarrow>
             m_current (melodyState s') = m_current (melodyState s) + 1 \<and>
             m_toneStart (melodyState s) \<noteq> 0 \<and> \<not> m_playingTone (melodyState s) \<and>
             m_toneStart (melodyState s') = 0 \<and> \<not> m_playingTone (melodyState s') \<and>
             (unat (t_duration (a (unat (m_current (melodyState s))))) +
              unat (t_rest (a (unat (m_current (melodyState s)))))
                \<le> unat (t1 - m_toneStart (melodyState s)) \<or>
              unat (t_duration (a (unat (m_current (melodyState s))))) +
              unat (t_rest (a (unat (m_current (melodyState s)))))
                \<le> unat (t2 - m_toneStart (melodyState s)))"
      using F now by blast
    have 3: "m_current (melodyState s') = m_current (melodyState s) \<and>
             m_toneStart (melodyState s) \<noteq> 0 \<longrightarrow>
             m_toneStart (melodyState s') = m_toneStart (melodyState s)"
      using F by blast
    have 4: "m_toneStart (melodyState s) = 0 \<longrightarrow>
             m_current (melodyState s') = m_current (melodyState s) \<and>
             m_toneStart (melodyState s') \<in> {0, t1, t2}"
      using F now by blast
    have 5: "melody_guard s \<and> m_toneStart (melodyState s) \<noteq> 0 \<and>
             \<not> m_playingTone (melodyState s) \<longrightarrow>
             (m_current (melodyState s') = m_current (melodyState s) + 1) =
             (unat (t_duration (a (unat (m_current (melodyState s))))) +
              unat (t_rest (a (unat (m_current (melodyState s)))))
                \<le> unat (t1 - m_toneStart (melodyState s)))"
      using F B by blast
    from 1 2 3 4 5 show ?thesis
      unfolding Let_def by blast
  qed
qed

lemma tone_over_unat:
  "tone_over now start t = (unat (t_duration t) \<le> unat (now - start))"
  by (simp add: tone_over_def word_le_nat_alt unat_ucast16)

lemma update_guarded:
  assumes "melody_guard s"
  shows "update t1 t2 s = map_option (Pair False) (melody_tick t1 s)"
  using assms by (simp add: update_def pattern_tick_def melody_guard_def Let_def)

lemma guarded_call:
  assumes g: "melody_guard s"
    and a: "m_tones (melodyState s) = Ptr a"
    and c: "m_current (melodyState s) < m_count (melodyState s)"
  shows "\<exists>s'. update t1 t2 s = Some (False, s') \<and> melody_guard s' \<and>
           m_tones (melodyState s') = Ptr a \<and> m_count (melodyState s') = m_count (melodyState s) \<and>
           (m_toneStart (melodyState s) = 0 \<longrightarrow>
              m_current (melodyState s') = m_current (melodyState s) \<and>
              m_toneStart (melodyState s') = t1 \<and> m_playingTone (melodyState s') \<and>
              (t_frequency (a (unat (m_current (melodyState s)))) = 0 \<longrightarrow> driver s' = driver s)) \<and>
           (m_toneStart (melodyState s) \<noteq> 0 \<and> m_playingTone (melodyState s) \<longrightarrow>
              m_current (melodyState s') = m_current (melodyState s) \<and>
              m_toneStart (melodyState s') = m_toneStart (melodyState s) \<and>
              m_playingTone (melodyState s') =
                (\<not> unat (t_duration (a (unat (m_current (melodyState s)))))
                     \<le> unat (t1 - m_toneStart (melodyState s))) \<and>
              tones_fired s' = tones_fired s) \<and>
           (m_toneStart (melodyState s) \<noteq> 0 \<and> \<not> m_playingTone (melodyState s) \<longrightarrow>
              \<not> m_playingTone (melodyState s') \<and> driver s' = driver s \<and>
              (m_current (melodyState s') = m_current (melodyState s) + 1) =
                (unat (t_duration (a (unat (m_current (melodyState s))))) +
                 unat (t_rest (a (unat (m_current (melodyState s)))))
                   \<le> unat (t1 - m_toneStart (melodyState s))) \<and>
              (m_current (melodyState s') = m_current (melodyState s) + 1 \<longrightarrow>
                 m_toneStart (melodyState s') = 0))"
  using g a c
  unfolding update_guarded [OF g]
  by (auto simp: melody_tick_def Let_def melody_guard_def tones_fired_def
      tone_over_unat step_over_unat)

text \<open>
  Claim C7. Take a melody that stands at a step of its list; every call of \<open>update()\<close>
  returns. If the step has frequency 0 and no pulse train is active, the call makes no
  \<open>tone\<close> call on the pin driver. The call moves the melody past the step only if the
  step has begun and is resting and at least duration + rest ms have elapsed since its
  start timestamp, on one of the clock readings of the call; the start timestamp is
  then reset for the next step, and until then it stays as recorded. When the melody is
  the layer being ticked (nothing outranks it), a step that has not begun has its start
  recorded as the clock value of the call and becomes sounding; a sounding step stays
  sounding exactly until duration ms have elapsed and then rests; a resting step
  advances exactly when duration + rest ms have elapsed. None of this depends on the
  frequency, so a silent step is timed exactly as a sounding one. In particular three
  calls, the first at a clock value other than 0, the second once duration has elapsed
  and the third once duration + rest has elapsed, take the melody through a silent step
  and on to the next one without any \<open>tone\<close> call.
\<close>

theorem silent_step:
  assumes a: "m_tones (melodyState s) = Ptr a"
    and c: "m_current (melodyState s) < m_count (melodyState s)"
  shows
    "(\<exists>r s'. update t1 t2 s = Some (r, s') \<and>
       (let m = melodyState s; m' = melodyState s'; step = a (unat (m_current m));
            sounding = unat (t_duration step);
            needed = unat (t_duration step) + unat (t_rest step) in
        (\<not> p_active (pulseState s) \<and> t_frequency step = 0 \<longrightarrow> tones_fired s' = tones_fired s) \<and>
        (m_current m' \<noteq> m_current m \<longrightarrow>
           m_current m' = m_current m + 1 \<and> m_toneStart m \<noteq> 0 \<and> \<not> m_playingTone m \<and>
           m_toneStart m' = 0 \<and> \<not> m_playingTone m' \<and>
           (needed \<le> unat (t1 - m_toneStart m) \<or> needed \<le> unat (t2 - m_toneStart m))) \<and>
        (m_current m' = m_current m \<and> m_toneStart m \<noteq> 0 \<longrightarrow> m_toneStart m' = m_toneStart m) \<and>
        (m_toneStart m = 0 \<longrightarrow>
           m_current m' = m_current m \<and> m_toneStart m' \<in> {0, t1, t2}) \<and>
        (melody_guard s \<longrightarrow>
           melody_guard s' \<and> m_tones m' = m_tones m \<and> m_count m' = m_count m) \<and>
        (melody_guard s \<and> m_toneStart m = 0 \<longrightarrow> m_toneStart m' = t1 \<and> m_playingTone m') \<and>
        (melody_guard s \<and> m_toneStart m \<noteq> 0 \<and> m_playingTone m \<longrightarrow>
           m_current m' = m_current m \<and>
           m_playingTone m' = (\<not> sounding \<le> unat (t1 - m_toneStart m))) \<and>
        (melody_guard s \<and> m_toneStart m \<noteq> 0 \<and> \<not> m_playingTone m \<longrightarrow>
           \<not> m_playingTone m' \<and>
           (m_current m' = m_current m + 1) = (needed \<le> unat (t1 - m_toneStart m))))) \<and>
     (let m = melodyState s; step = a (unat (m_current m));
          sounding = unat (t_duration step);
          needed = unat (t_duration step) + unat (t_rest step) in
      melody_guard s \<and> m_toneStart m = 0 \<and> t_frequency step = 0 \<and> t0 \<noteq> 0 \<and>
      sounding \<le> unat (ta - t0) \<and> needed \<le> unat (tb - t0) \<longrightarrow>
        (\<exists>s3. run [at t0, at ta, at tb] s = Some s3 \<and>
           m_current (melodyState s3) = m_current m + 1 \<and>
           m_toneStart (melodyState s3) = 0 \<and>
           tones_fired s3 = tones_fired s))"
proof -
  have ok: "melody_ok s"
    using a by (simp add: melody_ok_def)
  from update_returns [OF ok] obtain r s' where u: "update t1 t2 s = Some (r, s')"
    by blast
  note G = melody_step_call [OF u a c, unfolded Let_def]
  have H: "melody_guard s \<longrightarrow>
      melody_guard s' \<and> m_tones (melodyState s') = m_tones (melodyState s) \<and>
      m_count (melodyState s') = m_count (melodyState s) \<and>
      (m_toneStart (melodyState s) = 0 \<longrightarrow>
         m_toneStart (melodyState s') = t1 \<and> m_playingTone (melodyState s')) \<and>
      (m_toneStart (melodyState s) \<noteq> 0 \<and> m_playingTone (melodyState s) \<longrightarrow>
         m_current (melodyState s') = m_current (melodyState s) \<and>
         m_playingTone (melodyState s') =
           (\<not> unat (t_duration (a (unat (m_current (melodyState s)))))
                \<le> unat (t1 - m_toneStart (melodyState s)))) \<and>
      (m_toneStart (melodyState s) \<noteq> 0 \<and> \<not> m_playingTone (melodyState s) \<longrightarrow>
         \<not> m_playingTone (melodyState s') \<and>
         (m_current (melodyState s') = m_current (melodyState s) + 1) =
           (unat (t_duration (a (unat (m_current (melodyState s))))) +
            unat (t_rest (a (unat (m_current (melodyState s)))))
              \<le> unat (t1 - m_toneStart (melodyState s))))"
  proof
    assume g: "melody_guard s"
    from guarded_call [OF g a c, of t1 t2] u a
    show "melody_guard s' \<and> m_tones (melodyState s') = m_tones (melodyState s) \<and>
      m_count (melodyState s') = m_count (melodyState s) \<and>
      (m_toneStart (melodyState s) = 0 \<longrightarrow>
         m_toneStart (melodyState s') = t1 \<and> m_playingTone (melodyState s')) \<and>
      (m_toneStart (melodyState s) \<noteq> 0 \<and> m_playingTone (melodyState s) \<longrightarrow>
         m_current (melodyState s') = m_current (melodyState s) \<and>
         m_playingTone (melodyState s') =
           (\<not> unat (t_duration (a (unat (m_current (melodyState s)))))
                \<le> unat (t1 - m_toneStart (melodyState s)))) \<and>
      (m_toneStart (melodyState s) \<noteq> 0 \<and> \<not> m_playingTone (melodyState s) \<longrightarrow>
         \<not> m_playingTone (melodyState s') \<and>
         (m_current (melodyState s') = m_current (melodyState s) + 1) =
           (unat (t_duration (a (unat (m_current (melodyState s))))) +
            unat (t_rest (a (unat (m_current (melodyState s)))))
              \<le> unat (t1 - m_toneStart (melodyState s))))"
      by auto
  qed
  have first: "\<exists>r s'. update t1 t2 s = Some (r, s') \<and>
       (let m = melodyState s; m' = melodyState s'; step = a (unat (m_current m));
            sounding = unat (t_duration step);
            needed = unat (t_duration step) + unat (t_rest step) in
        (\<not> p_active (pulseState s) \<and> t_frequency step = 0 \<longrightarrow> tones_fired s' = tones_fired s) \<and>
        (m_current m' \<noteq> m_current m \<longrightarrow>
           m_current m' = m_current m + 1 \<and> m_toneStart m \<noteq> 0 \<and> \<not> m_playingTone m \<and>
           m_toneStart m' = 0 \<and> \<not> m_playingTone m' \<and>
           (needed \<le> unat (t1 - m_toneStart m) \<or> needed \<le> unat (t2 - m_toneStart m))) \<and>
        (m_current m' = m_current m \<and> m_toneStart m \<noteq> 0 \<longrightarrow> m_toneStart m' = m_toneStart m) \<and>
        (m_toneStart m = 0 \<longrightarrow>
           m_current m' = m_current m \<and> m_toneStart m' \<in> {0, t1, t2}) \<and>
        (melody_guard s \<longrightarrow>
           melody_guard s' \<and> m_tones m' = m_tones m \<and> m_count m' = m_count m) \<and>
        (melody_guard s \<and> m_toneStart m = 0 \<longrightarrow> m_toneStart m' = t1 \<and> m_playingTone m') \<and>
        (melody_guard s \<and> m_toneStart m \<noteq> 0 \<and> m_playingTone m \<longrightarrow>
           m_current m' = m_current m \<and>
           m_playingTone m' = (\<not> sounding \<le> unat (t1 - m_toneStart m))) \<and>
        (melody_guard s \<and> m_toneStart m \<noteq> 0 \<and> \<not> m_playingTone m \<longrightarrow>
           \<not> m_playingTone m' \<and>
           (m_current m' = m_current m + 1) = (needed \<le> unat (t1 - m_toneStart m))))"
    using u G H unfolding Let_def by blast
  have second: "melody_guard s \<and> m_toneStart (melodyState s) = 0 \<and>
      t_frequency (a (unat (m_current (melodyState s)))) = 0 \<and> t0 \<noteq> 0 \<and>
      unat (t_duration (a (unat (m_current (melodyState s))))) \<le> unat (ta - t0) \<and>
      unat (t_duration (a (unat (m_current (melodyState s))))) +
      unat (t_rest (a (unat (m_current (melodyState s))))) \<le> unat (tb - t0) \<longrightarrow>
        (\<exists>s3. run [at t0, at ta, at tb] s = Some s3 \<and>
           m_current (melodyState s3) = m_current (melodyState s) + 1 \<and>
           m_toneStart (melodyState s3) = 0 \<and>
           tones_fired s3 = tones_fired s)"
  proof
    assume h: "melody_guard s \<and> m_toneStart (melodyState s) = 0 \<and>
      t_frequency (a (unat (m_current (melodyState s)))) = 0 \<and> t0 \<noteq> 0 \<and>
      unat (t_duration (a (unat (m_current (melodyState s))))) \<le> unat (ta - t0) \<and>
      unat (t_duration (a (unat (m_current (melodyState s))))) +
      unat (t_rest (a (unat (m_current (melodyState s))))) \<le> unat (tb - t0)"
    then have g: "melody_guard s" by blast
    from guarded_call [OF g a c, of t0 t0] h
    obtain s1 where u1: "update t0 t0 s = Some (False, s1)" and g1: "melody_guard s1"
      and a1: "m_tones (melodyState s1) = Ptr a"
      and n1: "m_count (melodyState s1) = m_count (melodyState s)"
      and c1: "m_current (melodyState s1) = m_current (melodyState s)"
      and b1: "m_toneStart (melodyState s1) = t0" "m_playingTone (melodyState s1)"
      and d1: "driver s1 = driver s"
      by blast
    from c c1 n1 have lt1: "m_current (melodyState s1) < m_count (melodyState s1)" by simp
    from guarded_call [OF g1 a1 lt1, of ta ta] h b1 c1
    obtain s2 where u2: "update ta ta s1 = Some (False, s2)" and g2: "melody_guard s2"
      and a2: "m_tones (melodyState s2) = Ptr a"
      and n2: "m_count (melodyState s2) = m_count (melodyState s1)"
      and c2: "m_current (melodyState s2) = m_current (melodyState s1)"
      and b2: "m_toneStart (melodyState s2) = t0" "\<not> m_playingTone (melodyState s2)"
      and d2: "tones_fired s2 = tones_fired s1"
      by auto
    from lt1 c2 n2 have lt2: "m_current (melodyState s2) < m_count (melodyState s2)" by simp
    from guarded_call [OF g2 a2 lt2, of tb tb] h b2 c2 c1
    obtain s3 where u3: "update tb tb s2 = Some (False, s3)"
      and c3: "m_current (melodyState s3) = m_current (melodyState s2) + 1"
      and b3: "m_toneStart (melodyState s3) = 0"
      and d3: "driver s3 = driver s2"
      by auto
    have "run [at t0, at ta, at tb] s = Some s3"
      using u1 u2 u3 by (simp add: at_def)
    moreover have "tones_fired s3 = tones_fired s"
      using d1 d2 d3 by (simp add: tones_fired_def)
    ultimately show "\<exists>s3. run [at t0, at ta, at tb] s = Some s3 \<and>
           m_current (melodyState s3) = m_current (melodyState s) + 1 \<and>
           m_toneStart (melodyState s3) = 0 \<and>
           tones_fired s3 = tones_fired s"
      using c1 c2 c3 b3 by auto
  qed
  from first second show ?thesis
    unfolding Let_def by blast
qed

theorem silent_step_witness:
  "(\<exists>r s'. update 10 10 (melody pause_tune 2 False (configured 8)) = Some (r, s') \<and>
      m_toneStart (melodyState s') = 10 \<and> m_playingTone (melodyState s') \<and>
      tones_fired s' = tones_fired (melody pause_tune 2 False (configured 8))) \<and>
   (\<exists>s3. run [at 10, at 110, at 160] (melody pause_tune 2 False (configured 8)) = Some s3 \<and>
      m_current (melodyState s3) = 1 \<and>
      tones_fired s3 = tones_fired (melody pause_tune 2 False (configured 8))) \<and>
   (\<exists>r s'. update 249 249 (melody_silent_step 200 False) = Some (r, s') \<and>
      m_current (melodyState s') = 1 \<and> m_toneStart (melodyState s') = 200) \<and>
   (\<exists>r s'. update 250 250 (melody_silent_step 200 False) = Some (r, s') \<and>
      tones_fired s' = tones_fired (melody_silent_step 200 False) \<and>
      m_current (melodyState s') = 2) \<and>
   (\<exists>r s'. update 205 205 (melody_silent_step 200 True) = Some (r, s') \<and>
      m_current (melodyState s') = 1 \<and> \<not> m_playingTone (melodyState s'))"
proof -
  let ?S = "melody pause_tune 2 False (configured 8)"
  have S: "m_current (melodyState ?S) < m_count (melodyState ?S)"
    "\<not> p_active (pulseState ?S)" "melody_guard ?S"
    "m_current (melodyState ?S) = 0" "m_toneStart (melodyState ?S) = 0"
    by (simp_all add: melody_def Let_def stopMelody_def configured_def initial_def
        Config_default_def Pulse_default_def Pattern_default_def mk_Pulse_def mk_Pattern_def
        melody_guard_def pause_tune_def array_of_def)
  have "\<exists>a. m_tones (melodyState ?S) = Ptr a \<and>
          a 0 = \<lparr>t_frequency = 0, t_duration = 100, t_rest = 50\<rparr>"
    by (simp add: melody_def pause_tune_def array_of_def Let_def stopMelody_def configured_def)
  then obtain aS where aS: "m_tones (melodyState ?S) = Ptr aS"
    and aS0: "aS 0 = \<lparr>t_frequency = 0, t_duration = 100, t_rest = 50\<rparr>"
    by blast
  have hS: "t_frequency (aS (unat (m_current (melodyState ?S)))) = 0"
    "(10 :: u32) \<noteq> 0"
    "unat (t_duration (aS (unat (m_current (melodyState ?S))))) \<le> unat (110 - 10 :: u32)"
    "unat (t_duration (aS (unat (m_current (melodyState ?S))))) +
     unat (t_rest (aS (unat (m_current (melodyState ?S))))) \<le> unat (160 - 10 :: u32)"
    by (simp_all add: S aS0)
  note T0 = silent_step [OF aS S(1), where ?t1.0 = 10 and ?t2.0 = 10 and ?t0.0 = 10
      and ta = 110 and tb = 160, unfolded Let_def]
  from T0 S hS have A: "\<exists>r s'. update 10 10 ?S = Some (r, s') \<and>
      m_toneStart (melodyState s') = 10 \<and> m_playingTone (melodyState s') \<and>
      tones_fired s' = tones_fired ?S"
    by blast
  from T0 S hS have "\<exists>s3. run [at 10, at 110, at 160] ?S = Some s3 \<and>
      m_current (melodyState s3) = m_current (melodyState ?S) + 1 \<and>
      tones_fired s3 = tones_fired ?S"
    by blast
  then have B: "\<exists>s3. run [at 10, at 110, at 160] ?S = Some s3 \<and>
      m_current (melodyState s3) = 1 \<and> tones_fired s3 = tones_fired ?S"
    by (simp add: S)

  have tones: "\<exists>a. m_tones (melodyState (melody_silent_step t pl)) = Ptr a \<and>
                 a (Suc 0) = \<lparr>t_frequency = 0, t_duration = 0, t_rest = 50\<rparr>" for t pl
    by (simp add: melody_silent_step_def melody_def tune_def array_of_def Let_def
        stopMelody_def configured_def)
  have g: "m_current (melodyState (melody_silent_step t pl)) < m_count (melodyState (melody_silent_step t pl))"
    "\<not> p_active (pulseState (melody_silent_step t pl))"
    "melody_guard (melody_silent_step t pl)"
    "m_current (melodyState (melody_silent_step t pl)) = 1"
    "m_toneStart (melodyState (melody_silent_step t pl)) = t"
    "m_playingTone (melodyState (melody_silent_step t pl)) = pl" for t pl
    by (simp_all add: melody_silent_step_def melody_def Let_def stopMelody_def configured_def
        initial_def Config_default_def Pulse_default_def Pattern_default_def mk_Pulse_def
        mk_Pattern_def melody_guard_def tune_def array_of_def)

  let ?s1 = "melody_silent_step 200 False"
  from tones obtain a1 where a1: "m_tones (melodyState ?s1) = Ptr a1"
    and a11: "a1 (Suc 0) = \<lparr>t_frequency = 0, t_duration = 0, t_rest = 50\<rparr>"
    by blast
  have f1: "t_frequency (a1 (unat (m_current (melodyState ?s1)))) = 0"
    by (simp add: g a11)
  have ns: "m_toneStart (melodyState ?s1) \<noteq> 0" "\<not> m_playingTone (melodyState ?s1)"
    by (simp_all add: g)
  have early: "\<not> unat (t_duration (a1 (unat (m_current (melodyState ?s1))))) +
        unat (t_rest (a1 (unat (m_current (melodyState ?s1)))))
          \<le> unat (249 - m_toneStart (melodyState ?s1))"
    by (simp add: g a11)
  from silent_step [OF a1 g(1), where ?t1.0 = 249 and ?t2.0 = 249, unfolded Let_def] early ns
  have "\<exists>r s'. update 249 249 ?s1 = Some (r, s') \<and>
        m_current (melodyState s') = m_current (melodyState ?s1) \<and>
        m_toneStart (melodyState s') = m_toneStart (melodyState ?s1)"
    by blast
  then have C: "\<exists>r s'. update 249 249 ?s1 = Some (r, s') \<and>
        m_current (melodyState s') = 1 \<and> m_toneStart (melodyState s') = 200"
    by (simp add: g)
  have due: "unat (t_duration (a1 (unat (m_current (melodyState ?s1))))) +
        unat (t_rest (a1 (unat (m_current (melodyState ?s1)))))
          \<le> unat (250 - m_toneStart (melodyState ?s1))"
    by (simp add: g a11)
  from silent_step [OF a1 g(1), where ?t1.0 = 250 and ?t2.0 = 250, unfolded Let_def]
    due ns f1 g(2) [of 200 False] g(3) [of 200 False]
  have "\<exists>r s'. update 250 250 ?s1 = Some (r, s') \<and> tones_fired s' = tones_fired ?s1 \<and>
        m_current (melodyState s') = m_current (melodyState ?s1) + 1"
    by blast
  then have D: "\<exists>r s'. update 250 250 ?s1 = Some (r, s') \<and> tones_fired s' = tones_fired ?s1 \<and>
        m_current (melodyState s') = 2"
    by (simp add: g)

  let ?s2 = "melody_silent_step 200 True"
  from tones obtain a2 where a2: "m_tones (melodyState ?s2) = Ptr a2"
    and a21: "a2 (Suc 0) = \<lparr>t_frequency = 0, t_duration = 0, t_rest = 50\<rparr>"
    by blast
  have pl: "m_toneStart (melodyState ?s2) \<noteq> 0" "m_playingTone (melodyState ?s2)"
    "unat (t_duration (a2 (unat (m_current (melodyState ?s2)))))
       \<le> unat (205 - m_toneStart (melodyState ?s2))"
    by (simp_all add: g a21)
  from silent_step [OF a2 g(1), where ?t1.0 = 205 and ?t2.0 = 205, unfolded Let_def]
    pl g(3) [of 200 True]
  have "\<exists>r s'. update 205 205 ?s2 = Some (r, s') \<and>
        m_current (melodyState s') = m_current (melodyState ?s2) \<and>
        \<not> m_playingTone (melodyState s')"
    by blast
  then have E: "\<exists>r s'. update 205 205 ?s2 = Some (r, s') \<and>
        m_current (melodyState s') = 1 \<and> \<not> m_playingTone (melodyState s')"
    by (simp add: g)
  from A B C D E show ?thesis by blast
qed

text \<open>
  Claim C6, as amended. With a configured pin and neither pattern nor melody active,
  after \<open>pulse(3, 1000, 50, 20)\<close> and under calls of \<open>update()\<close> at non-decreasing clock
  values between 1 and \<open>2 ^ 32 - 1\<close> ms, the code behaves as the pulse train of the
  specification with a gap of 70 ms: the first call fires tone 1, each later tone fires
  on the first call that comes at least 70 ms after the call that fired the tone before
  it, no more than three tones fire, and the call that finds no pulse remaining clears
  the active flag, after which nothing fires. With calls at exactly 0, 70, 140 and 141
  ms the three tones fire at 0, 70 and 140, the train is inactive after the call at 141,
  and no later call (at any clock value) fires a tone.
\<close>

theorem pulse_train_schedule:
  assumes pin: "c_pin (config s) \<noteq> 255"
    and idle: "\<not> pt_active (patternState s)" "\<not> m_active (melodyState s)"
  shows "(sorted ts \<and> (\<forall>t\<in>set ts. 0 < t \<and> t < 2 ^ 32) \<longrightarrow>
            (\<exists>s'. run (map at_ms ts) (pulse 3 1000 50 20 s) = Some s' \<and>
               fires (map at_ms ts) (pulse 3 1000 50 20 s) = train_fires 70 ts train3 \<and>
               p_active (pulseState s') = running (train_run 70 ts train3) \<and>
               unat (p_pulses (pulseState s')) = remaining (train_run 70 ts train3) \<and>
               driver s' = driver s @
                 replicate (length (filter (\<lambda>b. b) (train_fires 70 ts train3)))
                   (CallTone (c_pin (config s)) 1000 50))) \<and>
         length (filter (\<lambda>b. b) (train_fires 70 ts train3)) \<le> 3 \<and>
         (\<exists>s'. run (map at_ms [0, 70, 140, 141] @ us) (pulse 3 1000 50 20 s) = Some s' \<and>
            fires (map at_ms [0, 70, 140, 141] @ us) (pulse 3 1000 50 20 s) =
              [True, True, True, False] @ replicate (length us) False \<and>
            \<not> p_active (pulseState s') \<and>
            driver s' = driver s @ replicate 3 (CallTone (c_pin (config s)) 1000 50))"
proof -
  have rel: "train_rel 70 train3 (pulse 3 1000 50 20 s)"
    using pulse_train_rel [OF pin idle, of 3 20 50 1000] by (simp add: train3_def)
  have start: "config (pulse 3 1000 50 20 s) = config s"
    "p_frequency (pulseState (pulse 3 1000 50 20 s)) = 1000"
    "p_duration (pulseState (pulse 3 1000 50 20 s)) = 50"
    "driver (pulse 3 1000 50 20 s) = driver s"
    using pin by (simp_all add: pulse_def mk_Pulse_def)
  have A: "sorted ts \<and> (\<forall>t\<in>set ts. 0 < t \<and> t < 2 ^ 32) \<longrightarrow>
            (\<exists>s'. run (map at_ms ts) (pulse 3 1000 50 20 s) = Some s' \<and>
               fires (map at_ms ts) (pulse 3 1000 50 20 s) = train_fires 70 ts train3 \<and>
               p_active (pulseState s') = running (train_run 70 ts train3) \<and>
               unat (p_pulses (pulseState s')) = remaining (train_run 70 ts train3) \<and>
               driver s' = driver s @
                 replicate (length (filter (\<lambda>b. b) (train_fires 70 ts train3)))
                   (CallTone (c_pin (config s)) 1000 50))"
  proof
    assume h: "sorted ts \<and> (\<forall>t\<in>set ts. 0 < t \<and> t < 2 ^ 32)"
    have none: "\<And>l. last_fire train3 = Some l \<Longrightarrow> \<forall>t\<in>set ts. l \<le> t"
      by (simp add: train3_def)
    from run_train [OF rel _ _ none] h
    obtain s' where r: "run (map at_ms ts) (pulse 3 1000 50 20 s) = Some s'"
      and f: "fires (map at_ms ts) (pulse 3 1000 50 20 s) = train_fires 70 ts train3"
      and rl: "train_rel 70 (train_run 70 ts train3) s'"
      and d: "driver s' = driver (pulse 3 1000 50 20 s) @
             replicate (length (filter (\<lambda>b. b) (train_fires 70 ts train3)))
               (CallTone (c_pin (config (pulse 3 1000 50 20 s)))
                  (p_frequency (pulseState (pulse 3 1000 50 20 s)))
                  (p_duration (pulseState (pulse 3 1000 50 20 s))))"
      by blast
    from rl have "p_active (pulseState s') = running (train_run 70 ts train3)"
      "unat (p_pulses (pulseState s')) = remaining (train_run 70 ts train3)"
      by (simp_all add: train_rel_def)
    with r f d start show "\<exists>s'. run (map at_ms ts) (pulse 3 1000 50 20 s) = Some s' \<and>
               fires (map at_ms ts) (pulse 3 1000 50 20 s) = train_fires 70 ts train3 \<and>
               p_active (pulseState s') = running (train_run 70 ts train3) \<and>
               unat (p_pulses (pulseState s')) = remaining (train_run 70 ts train3) \<and>
               driver s' = driver s @
                 replicate (length (filter (\<lambda>b. b) (train_fires 70 ts train3)))
                   (CallTone (c_pin (config s)) 1000 50)"
      by simp
  qed
  have B: "length (filter (\<lambda>b. b) (train_fires 70 ts train3)) \<le> 3"
    using train_fires_bound [of 70 ts train3] by (simp add: train3_def)
  from scenario_0_70_140 [OF pin idle]
  obtain s1 where r1: "run (map at_ms [0, 70, 140, 141]) (pulse 3 1000 50 20 s) = Some s1"
    and f1: "fires (map at_ms [0, 70, 140, 141]) (pulse 3 1000 50 20 s) = [True, True, True, False]"
    and i1: "\<not> p_active (pulseState s1)" "\<not> pt_active (patternState s1)" "\<not> m_active (melodyState s1)"
    and d1: "driver s1 = driver s @ replicate 3 (CallTone (c_pin (config s)) 1000 50)"
    by blast
  from idle_run [OF i1, of us] have r2: "run us s1 = Some s1"
    and f2: "fires us s1 = replicate (length us) False"
    by simp_all
  have "run (map at_ms [0, 70, 140, 141] @ us) (pulse 3 1000 50 20 s) = Some s1"
    using r1 r2 by (simp only: run_append bind.bind_lunit)
  moreover have "fires (map at_ms [0, 70, 140, 141] @ us) (pulse 3 1000 50 20 s) =
      [True, True, True, False] @ replicate (length us) False"
    using fires_append [OF r1, of us] f1 f2 by simp
  ultimately have C: "\<exists>s'. run (map at_ms [0, 70, 140, 141] @ us) (pulse 3 1000 50 20 s) = Some s' \<and>
            fires (map at_ms [0, 70, 140, 141] @ us) (pulse 3 1000 50 20 s) =
              [True, True, True, False] @ replicate (length us) False \<and>
            \<not> p_active (pulseState s') \<and>
            driver s' = driver s @ replicate 3 (CallTone (c_pin (config s)) 1000 50)"
    using i1 d1 by blast
  from A B C show ?thesis by blast
qed

theorem pulse_train_schedule_witness:
  "\<exists>s'. run (map at_ms [1, 30, 71, 100, 141, 142, 500]) (pulse 3 1000 50 20 (configured 8)) = Some s' \<and>
        fires (map at_ms [1, 30, 71, 100, 141, 142, 500]) (pulse 3 1000 50 20 (configured 8)) =
          [True, False, True, False, True, False, False] \<and>
        \<not> p_active (pulseState s') \<and>
        driver s' = [CallTone 8 1000 50, CallTone 8 1000 50, CallTone 8 1000 50]"
proof -
  have pin: "c_pin (config (configured 8)) \<noteq> 255"
    and idle: "\<not> pt_active (patternState (configured 8))" "\<not> m_active (melodyState (configured 8))"
    by code_simp+
  have h: "sorted [1, 30, 71, 100, 141, 142, 500 :: nat] \<and>
           (\<forall>t\<in>set [1, 30, 71, 100, 141, 142, 500 :: nat]. 0 < t \<and> t < 2 ^ 32)"
    by simp
  have m: "train_fires 70 [1, 30, 71, 100, 141, 142, 500] train3 =
             [True, False, True, False, True, False, False]"
    "running (train_run 70 [1, 30, 71, 100, 141, 142, 500] train3) = False"
    by code_simp+
  have c: "driver (configured 8) = []" "c_pin (config (configured 8)) = 8"
    by code_simp+
  from pulse_train_schedule [OF pin idle, of "[1, 30, 71, 100, 141, 142, 500]"] h
  obtain s' where
    "run (map at_ms [1, 30, 71, 100, 141, 142, 500]) (pulse 3 1000 50 20 (configured 8)) = Some s'"
    "fires (map at_ms [1, 30, 71, 100, 141, 142, 500]) (pulse 3 1000 50 20 (configured 8)) =
       train_fires 70 [1, 30, 71, 100, 141, 142, 500] train3"
    "p_active (pulseState s') = running (train_run 70 [1, 30, 71, 100, 141, 142, 500] train3)"
    "driver s' = driver (configured 8) @
       replicate (length (filter (\<lambda>b. b) (train_fires 70 [1, 30, 71, 100, 141, 142, 500] train3)))
         (CallTone (c_pin (config (configured 8))) 1000 50)"
    by blast
  then show ?thesis
    unfolding m c by (simp add: numeral_3_eq_3)
qed

text \<open>
  Claim C6 as stated fails for calls at irregular times. After the first tone at 0 ms the
  stored timestamp is 0, which reads as "not yet fired": a call at 1 ms fires the second
  tone. And the gap is counted from the call that fired the previous tone: with calls at
  0, 100, 150 and 170 ms the second tone fires at 100, so the call at 150 fires nothing,
  the train is still active then, and the third tone fires at 170.
\<close>

theorem pulse_train_schedule_counterexample:
  "fires (map at_ms [0, 1, 2]) (pulse 3 1000 50 20 (configured 8)) = [True, True, False] \<and>
   fires (map at_ms [0, 100, 150, 170]) (pulse 3 1000 50 20 (configured 8)) =
     [True, True, False, True] \<and>
   map_option (\<lambda>s. p_active (pulseState s))
     (run (map at_ms [0, 100, 150]) (pulse 3 1000 50 20 (configured 8))) = Some True"
  by code_simp


end
